theory Spec2Isabelle
  imports Main "HOL-Library.AList"
begin

section \<open>JavaScript values\<close>

text \<open>
  The values \<^verbatim>\<open>JSON.parse\<close> produces. A number is kept as an integer: the program only
  tests numbers for zero and compares them as keys. An object is an association list; a
  property read takes the first binding of the name. The JavaScript value
  \<^verbatim>\<open>undefined\<close> is \<open>None\<close> of \<open>json option\<close>.
\<close>

datatype json =
    JNull
  | JBool bool
  | JNum int
  | JStr string
  | JArr "json list"
  | JObj "(string \<times> json) list"

datatype error =
    TypeError
  | SyntaxError
  | CorruptArchive
  | DecodeError
  | SecurityError
  | QuotaExceededError
  | NotReadableError

text \<open>Truthiness, as \<^verbatim>\<open>!x\<close>, \<^verbatim>\<open>x || y\<close> and \<^verbatim>\<open>if (x)\<close> test it.\<close>

fun truthy :: "json option \<Rightarrow> bool" where
  "truthy None = False"
| "truthy (Some JNull) = False"
| "truthy (Some (JBool b)) = b"
| "truthy (Some (JNum n)) = (n \<noteq> 0)"
| "truthy (Some (JStr s)) = (s \<noteq> [])"
| "truthy (Some (JArr xs)) = True"
| "truthy (Some (JObj fs)) = True"

text \<open>\<^verbatim>\<open>a || b\<close>\<close>

definition or_else :: "json option \<Rightarrow> json option \<Rightarrow> json option" where
  "or_else a b = (if truthy a then a else b)"

text \<open>
  \<^verbatim>\<open>a?.k\<close>: \<^verbatim>\<open>undefined\<close> when \<open>a\<close> is \<^verbatim>\<open>undefined\<close> or \<^verbatim>\<open>null\<close>, the property
  otherwise. It is used with the names \<^verbatim>\<open>surfer\<close>, \<^verbatim>\<open>host\<close>, \<^verbatim>\<open>username\<close>,
  \<^verbatim>\<open>profile\<close>, \<^verbatim>\<open>id\<close>, \<^verbatim>\<open>display_name\<close>, \<^verbatim>\<open>couch_visits\<close>,
  \<^verbatim>\<open>host_couch_visits\<close> and \<^verbatim>\<open>surfer_couch_visits\<close> only, which no boolean, number,
  string or array has, so that only an object can answer.
\<close>

fun opt_member :: "json option \<Rightarrow> string \<Rightarrow> json option" where
  "opt_member (Some (JObj fs)) k = map_of fs k"
| "opt_member _ k = None"

text \<open>
  \<^verbatim>\<open>a.k\<close> without the question mark throws a \<^verbatim>\<open>TypeError\<close> on \<^verbatim>\<open>undefined\<close> and
  \<^verbatim>\<open>null\<close>.
\<close>

fun member_js :: "json option \<Rightarrow> string \<Rightarrow> error + json option" where
  "member_js None k = Inl TypeError"
| "member_js (Some JNull) k = Inl TypeError"
| "member_js a k = Inr (opt_member a k)"

section \<open>The identity index\<close>

text \<open>
  \<^verbatim>\<open>names\<close> is a \<^verbatim>\<open>Map\<close>. A \<^verbatim>\<open>Map\<close> compares keys with SameValueZero: \<^verbatim>\<open>undefined\<close>,
  \<^verbatim>\<open>null\<close>, booleans, numbers and strings by value, objects and arrays by reference. In a
  parsed document no two places hold the same object, so the reference of an object or
  array met as the id of a visit is the place of that visit: its collection and its index
  there.
\<close>

datatype collection = HostVisits | SurferVisits

type_synonym visit_ref = "collection \<times> nat"

datatype key =
    KUndefined
  | KNull
  | KBool bool
  | KNum int
  | KStr string
  | KRef visit_ref

fun key_of :: "visit_ref \<Rightarrow> json option \<Rightarrow> key" where
  "key_of r None = KUndefined"
| "key_of r (Some JNull) = KNull"
| "key_of r (Some (JBool b)) = KBool b"
| "key_of r (Some (JNum n)) = KNum n"
| "key_of r (Some (JStr s)) = KStr s"
| "key_of r (Some (JArr xs)) = KRef r"
| "key_of r (Some (JObj fs)) = KRef r"

record identity =
  displayName :: "json option"
  username :: "json option"

type_synonym names_map = "key \<rightharpoonup> identity"

text \<open>
  \<^verbatim>\<open>
  const collectName = visit => {
    const person = visit?.surfer || visit?.host || {};
    const username = person?.username;
    const id = person?.profile?.id;
    const displayName = person?.profile?.display_name;
    names.set(id, { displayName, username });
  };
  \<close>
  The first argument is the place of the visit, which stands for the reference of an id
  that is an object.
\<close>

definition person_of :: "json option \<Rightarrow> json option" where
  "person_of visit =
     or_else (or_else (opt_member visit ''surfer'') (opt_member visit ''host''))
       (Some (JObj []))"

definition collectName :: "visit_ref \<Rightarrow> json option \<Rightarrow> names_map \<Rightarrow> names_map" where
  "collectName r visit names =
     (let person = person_of visit;
          username' = opt_member person ''username'';
          id' = opt_member (opt_member person ''profile'') ''id'';
          displayName' = opt_member (opt_member person ''profile'') ''display_name''
      in names(key_of r id' \<mapsto> \<lparr>displayName = displayName', username = username'\<rparr>))"

text \<open>
  \<^verbatim>\<open>xs.forEach(f)\<close>: an array calls \<open>f\<close> on each element in index order; any other value
  has no \<^verbatim>\<open>forEach\<close>, and calling it throws a \<^verbatim>\<open>TypeError\<close>. The callback also gets
  the collection the array is.
\<close>

fun forEach :: "collection \<Rightarrow> json option \<Rightarrow> (visit_ref \<Rightarrow> json option \<Rightarrow> 's \<Rightarrow> 's) \<Rightarrow> 's \<Rightarrow> error + 's" where
  "forEach c (Some (JArr xs)) f s = Inr (fold (\<lambda>(i, x). f (c, i) (Some x)) (enumerate 0 xs) s)"
| "forEach c _ f s = Inl TypeError"

text \<open>
  \<^verbatim>\<open>
  function getNamesFromJson(json) {
    const names = new Map();
    if (json?.couch_visits?.host_couch_visits) {
      json.couch_visits.host_couch_visits.forEach(collectName);
    }
    if (json?.couch_visits?.surfer_couch_visits) {
      json.couch_visits.surfer_couch_visits.forEach(collectName);
    }
    return names;
  }
  \<close>
\<close>

definition visits :: "json option \<Rightarrow> string \<Rightarrow> error + json option" where
  "visits json k =
     (case member_js json ''couch_visits'' of
        Inl e \<Rightarrow> Inl e
      | Inr cv \<Rightarrow> member_js cv k)"

definition collect :: "collection \<Rightarrow> string \<Rightarrow> json option \<Rightarrow> names_map \<Rightarrow> error + names_map" where
  "collect c k json names =
     (if truthy (opt_member (opt_member json ''couch_visits'') k)
      then (case visits json k of
              Inl e \<Rightarrow> Inl e
            | Inr vs \<Rightarrow> forEach c vs collectName names)
      else Inr names)"

definition getNamesFromJson :: "json option \<Rightarrow> error + names_map" where
  "getNamesFromJson json =
     (case collect HostVisits ''host_couch_visits'' json Map.empty of
        Inl e \<Rightarrow> Inl e
      | Inr names \<Rightarrow> collect SurferVisits ''surfer_couch_visits'' json names)"

section \<open>The archive\<close>

text \<open>
  What \<^verbatim>\<open>jszip.loadAsync\<close> hands back: the entries in the order \<^verbatim>\<open>zip.filter\<close>
  enumerates them. Reading the content of an entry (\<^verbatim>\<open>.async('string')\<close>,
  \<^verbatim>\<open>.async('blob')\<close>) decompresses it, which can fail: \<open>content\<close> is the outcome.
\<close>

record zipEntry =
  name :: string
  dir :: bool
  content :: "error + string"

type_synonym zip = "zipEntry list"

type_synonym parser = "string \<Rightarrow> error + json"

text \<open>\<^verbatim>\<open>zip.file(name)\<close>: the entry of that name, \<^verbatim>\<open>null\<close> when there is none or it is a directory.\<close>

definition zip_file :: "zip \<Rightarrow> string \<Rightarrow> zipEntry option" where
  "zip_file z n =
     (case find (\<lambda>e. name e = n) z of
        None \<Rightarrow> None
      | Some e \<Rightarrow> if dir e then None else Some e)"

text \<open>\<^verbatim>\<open>entry.async(...)\<close>; on \<^verbatim>\<open>null\<close> the property read throws.\<close>

fun async :: "zipEntry option \<Rightarrow> error + string" where
  "async None = Inl TypeError"
| "async (Some e) = content e"

text \<open>\<^verbatim>\<open>s.split(c)\<close> for a separator of one character, and \<^verbatim>\<open>xs.pop()\<close>.\<close>

fun split_js :: "char \<Rightarrow> string \<Rightarrow> string list" where
  "split_js c [] = ['''']"
| "split_js c (x # xs) =
     (if x = c then [] # split_js c xs
      else (case split_js c xs of
              [] \<Rightarrow> [x # []]
            | w # ws \<Rightarrow> (x # w) # ws))"

definition pop :: "'a list \<Rightarrow> 'a option" where
  "pop xs = (if xs = [] then None else Some (last xs))"

definition includes_js :: "'a list \<Rightarrow> 'a option \<Rightarrow> bool" where
  "includes_js xs x = (case x of None \<Rightarrow> False | Some y \<Rightarrow> y \<in> set xs)"

text \<open>The two callbacks given to \<^verbatim>\<open>zip.filter\<close>.\<close>

definition json_filter :: "zipEntry \<Rightarrow> bool" where
  "json_filter zipEntry \<longleftrightarrow>
     \<not> dir zipEntry \<and> pop (split_js CHR ''.'' (name zipEntry)) = Some ''json''"

definition image_filter :: "zipEntry \<Rightarrow> bool" where
  "image_filter zipEntry \<longleftrightarrow>
     \<not> dir zipEntry \<and> includes_js [''jpg'', ''gif'', ''png''] (pop (split_js CHR ''.'' (name zipEntry)))"

text \<open>
  \<^verbatim>\<open>
  async function getJsonFromZip(zip) {
    const files = zip.filter(...);
    if (!files.length) { return false; }
    const jsonString = await zip.file(files[0].name).async('string');
    try { const json = JSON.parse(jsonString); return json; }
    catch (error) { Sentry.captureException(error); return false; }
  }
  \<close>
  \<^verbatim>\<open>JSON.parse\<close> is a parameter.
\<close>

definition getJsonFromZip :: "parser \<Rightarrow> zip \<Rightarrow> error + json" where
  "getJsonFromZip parse z =
     (case filter json_filter z of
        [] \<Rightarrow> Inr (JBool False)
      | file # _ \<Rightarrow>
          (case async (zip_file z (name file)) of
             Inl e \<Rightarrow> Inl e
           | Inr jsonString \<Rightarrow>
               (case parse jsonString of
                  Inr json \<Rightarrow> Inr json
                | Inl e \<Rightarrow> Inr (JBool False))))"

text \<open>
  The table behind \<^verbatim>\<open>URL.createObjectURL\<close>: the blobs registered so far. The URL handed
  out is new each time; here it is made from the number of the registration.
\<close>

type_synonym url_store = "string list"

definition blob_url :: "nat \<Rightarrow> string" where
  "blob_url n = ''blob:'' @ replicate n CHR ''1''"

definition createObjectURL :: "url_store \<Rightarrow> string \<Rightarrow> string \<times> url_store" where
  "createObjectURL store blob = (blob_url (length store), store @ [blob])"

definition resolve_url :: "url_store \<Rightarrow> string \<Rightarrow> string option" where
  "resolve_url store url = map_of (zip (map blob_url [0..<length store]) store) url"

text \<open>
  \<^verbatim>\<open>
  const imageProcessor = files.map(async file => {
    const blob = await zip.file(file.name).async('blob');
    const blobUrl = urlCreator.createObjectURL(blob);
    return { blobUrl, id: file.name };
  });
  const images = await Promise.all(imageProcessor);
  \<close>
  Every promise runs to its end; \<^verbatim>\<open>Promise.all\<close> rejects when one of them does. The
  registrations are taken in the order of the entries.
\<close>

definition imageProcessor :: "zip \<Rightarrow> zipEntry \<Rightarrow> url_store \<Rightarrow> (error + json) \<times> url_store" where
  "imageProcessor z file store =
     (case async (zip_file z (name file)) of
        Inl e \<Rightarrow> (Inl e, store)
      | Inr blob \<Rightarrow>
          (case createObjectURL store blob of
             (blobUrl, store') \<Rightarrow>
               (Inr (JObj [(''blobUrl'', JStr blobUrl), (''id'', JStr (name file))]), store')))"

fun map_async :: "('a \<Rightarrow> 's \<Rightarrow> 'b \<times> 's) \<Rightarrow> 'a list \<Rightarrow> 's \<Rightarrow> 'b list \<times> 's" where
  "map_async f [] s = ([], s)"
| "map_async f (x # xs) s =
     (case f x s of
        (y, s') \<Rightarrow> (case map_async f xs s' of (ys, s'') \<Rightarrow> (y # ys, s'')))"

fun Promise_all :: "(error + 'a) list \<Rightarrow> error + 'a list" where
  "Promise_all [] = Inr []"
| "Promise_all (Inl e # ps) = Inl e"
| "Promise_all (Inr x # ps) =
     (case Promise_all ps of Inl e \<Rightarrow> Inl e | Inr xs \<Rightarrow> Inr (x # xs))"

definition getImagesFromZip :: "zip \<Rightarrow> url_store \<Rightarrow> (error + json list) \<times> url_store" where
  "getImagesFromZip z store =
     (case map_async (imageProcessor z) (filter image_filter z) store of
        (ps, store') \<Rightarrow> (Promise_all ps, store'))"

text \<open>
  A dropped file: its declared type, the text of \<^verbatim>\<open>lastModifiedDate.toString()\<close> when the
  browser gives the date, what reading it as text gives (a rejection when the read
  fails), and what \<^verbatim>\<open>jszip.loadAsync\<close> makes of its bytes (a rejection when they are no
  archive).
\<close>

record dropped_file =
  file_type :: string
  lastModifiedDate :: "string option"
  file_text :: "error + string"
  file_archive :: "error + zip"

text \<open>
  \<^verbatim>\<open>
  async function extractZip(file) {
    const zip = await jszip.loadAsync(file);
    const json = await getJsonFromZip(zip);
    const images = await getImagesFromZip(zip);
    return { images, json };
  }
  \<close>
\<close>

definition extractZip :: "parser \<Rightarrow> dropped_file \<Rightarrow> url_store \<Rightarrow> (error + json list \<times> json) \<times> url_store" where
  "extractZip parse file store =
     (case file_archive file of
        Inl e \<Rightarrow> (Inl e, store)
      | Inr z \<Rightarrow>
          (case getJsonFromZip parse z of
             Inl e \<Rightarrow> (Inl e, store)
           | Inr json \<Rightarrow>
               (case getImagesFromZip z store of
                  (Inl e, store') \<Rightarrow> (Inl e, store')
                | (Inr images, store') \<Rightarrow> (Inr (images, json), store'))))"

text \<open>
  \<^verbatim>\<open>readBlobFile\<close>: the text of the file, by \<^verbatim>\<open>file.text()\<close> or a \<^verbatim>\<open>FileReader\<close>. A
  read that fails rejects the promise of \<^verbatim>\<open>file.text()\<close>; the \<^verbatim>\<open>FileReader\<close> of the
  fallback has no \<^verbatim>\<open>onerror\<close>, and its promise then never settles. Either way nothing
  that follows the \<^verbatim>\<open>await\<close> in \<^verbatim>\<open>onDrop\<close> runs, and the model has the rejection for
  both.
\<close>

definition readBlobFile :: "dropped_file \<Rightarrow> error + string" where
  "readBlobFile file = file_text file"

section \<open>The state of the component and a drop\<close>

text \<open>The five \<^verbatim>\<open>useState\<close> cells of \<^verbatim>\<open>App\<close>.\<close>

record app_state =
  profile :: json
  profileImages :: json
  names :: names_map
  fileDate :: string
  isProcessing :: bool

text \<open>
  What a drop is seen to do besides the state: one of the five alerts, the scroll to the
  top that follows a commit, or a rejected promise (an exception nothing catches).
\<close>

datatype alert = NoFiles | JustOneFile | UnsupportedType | NoProfileJson | TooFunky

datatype outcome = Alerted alert | Scrolled | Rejected error

definition recordFileDate :: "dropped_file \<Rightarrow> app_state \<Rightarrow> app_state" where
  "recordFileDate file st =
     (case lastModifiedDate file of
        None \<Rightarrow> st
      | Some d \<Rightarrow> st\<lparr>fileDate := d\<rparr>)"

definition onDrop_zip :: "parser \<Rightarrow> dropped_file \<Rightarrow> app_state \<Rightarrow> url_store \<Rightarrow> outcome \<times> app_state \<times> url_store" where
  "onDrop_zip parse file st store =
     (case extractZip parse file store of
        (Inl e, store') \<Rightarrow> (Rejected e, st, store')
      | (Inr (images, json), store') \<Rightarrow>
          if \<not> truthy (Some json) then (Alerted NoProfileJson, st\<lparr>isProcessing := False\<rparr>, store')
          else (case getNamesFromJson (Some json) of
                  Inl e \<Rightarrow> (Rejected e, st, store')
                | Inr names' \<Rightarrow>
                    (Scrolled,
                     st\<lparr>profile := json, names := names', profileImages := JArr images,
                        isProcessing := False\<rparr>,
                     store')))"

definition onDrop_json :: "parser \<Rightarrow> dropped_file \<Rightarrow> app_state \<Rightarrow> outcome \<times> app_state" where
  "onDrop_json parse file st =
     (case readBlobFile file of
        Inl e \<Rightarrow> (Rejected e, st)
      | Inr jsonProfile \<Rightarrow>
          (case parse jsonProfile of
             Inl e \<Rightarrow> (Alerted TooFunky, st\<lparr>isProcessing := False\<rparr>)
           | Inr json \<Rightarrow>
               (case getNamesFromJson (Some json) of
                  Inl e \<Rightarrow> (Alerted TooFunky, st\<lparr>isProcessing := False\<rparr>)
                | Inr names' \<Rightarrow>
                    (Scrolled, st\<lparr>profile := json, names := names', isProcessing := False\<rparr>))))"

text \<open>
  \<^verbatim>\<open>onDrop(acceptedFiles)\<close>, lines 189 to 248 of \<^verbatim>\<open>App.js\<close>. \<open>None\<close> is an
  \<^verbatim>\<open>acceptedFiles\<close> that is \<^verbatim>\<open>undefined\<close> or \<^verbatim>\<open>null\<close>. The result is what the drop is
  seen to do, the state once the promise has settled, and the table of blob URLs.
\<close>

definition onDrop :: "parser \<Rightarrow> dropped_file list option \<Rightarrow> app_state \<Rightarrow> url_store \<Rightarrow> outcome \<times> app_state \<times> url_store" where
  "onDrop parse acceptedFiles st0 store =
     (let st = st0\<lparr>isProcessing := True\<rparr> in
      case acceptedFiles of
        None \<Rightarrow> (Alerted NoFiles, st\<lparr>isProcessing := False\<rparr>, store)
      | Some files \<Rightarrow>
          if length files = 0 then (Alerted NoFiles, st\<lparr>isProcessing := False\<rparr>, store)
          else if length files \<noteq> 1 then (Alerted JustOneFile, st\<lparr>isProcessing := False\<rparr>, store)
          else
          let file = hd files in
          if \<not> includes_js [''application/zip'', ''application/json''] (Some (file_type file))
          then (Alerted UnsupportedType, st\<lparr>isProcessing := False\<rparr>, store)
          else
            (let st' = recordFileDate file st in
             if file_type file = ''application/zip'' then onDrop_zip parse file st' store
             else if file_type file = ''application/json'' then
               (case onDrop_json parse file st' of (out, st'') \<Rightarrow> (out, st'', store))
             else (Scrolled, st'\<lparr>isProcessing := False\<rparr>, store)))"

section \<open>The session cache\<close>

text \<open>
  \<^verbatim>\<open>window.sessionStorage\<close>: the pairs it holds, whether the browser refuses every access
  to it (a \<^verbatim>\<open>SecurityError\<close>), and the room it has: \<^verbatim>\<open>setItem\<close> throws a
  \<^verbatim>\<open>QuotaExceededError\<close> when the pairs would take more.
\<close>

record storage =
  blocked :: bool
  quota :: nat
  items :: "(string \<times> string) list"

definition used :: "(string \<times> string) list \<Rightarrow> nat" where
  "used kvs = sum_list (map (\<lambda>(k, v). length k + length v) kvs)"

definition getItem :: "storage \<Rightarrow> string \<Rightarrow> error + string option" where
  "getItem s k = (if blocked s then Inl SecurityError else Inr (map_of (items s) k))"

definition setItem :: "storage \<Rightarrow> string \<Rightarrow> string \<Rightarrow> error + storage" where
  "setItem s k v =
     (if blocked s then Inl SecurityError
      else if quota s < used (AList.update k v (items s)) then Inl QuotaExceededError
      else Inr (s\<lparr>items := AList.update k v (items s)\<rparr>))"

text \<open>
  \<^verbatim>\<open>
  function setCacheValue(key, value) {
    try { window.sessionStorage.setItem(`${STORAGE_PREFIX}_${key}`, value); }
    catch (error) { Sentry.captureException(error); console.error(...); }
  }
  \<close>
  \<^verbatim>\<open>STORAGE_PREFIX\<close> comes from \<^verbatim>\<open>./constants\<close> and is a parameter.
\<close>

definition cache_key :: "string \<Rightarrow> string \<Rightarrow> string" where
  "cache_key prefix k = prefix @ ''_'' @ k"

definition setCacheValue :: "string \<Rightarrow> string \<Rightarrow> string \<Rightarrow> storage \<Rightarrow> storage" where
  "setCacheValue prefix k v s =
     (case setItem s (cache_key prefix k) v of
        Inl e \<Rightarrow> s
      | Inr s' \<Rightarrow> s')"

text \<open>
  The effect of \<^verbatim>\<open>App\<close> that mirrors the state into the cache (lines 180 to 186).
  \<^verbatim>\<open>JSON.stringify\<close> is a parameter, and so is the answer of \<^verbatim>\<open>testStorage\<close>, which
  comes from \<^verbatim>\<open>./utils\<close>.
\<close>

definition saveToCache :: "(json \<Rightarrow> string) \<Rightarrow> string \<Rightarrow> bool \<Rightarrow> app_state \<Rightarrow> storage \<Rightarrow> storage" where
  "saveToCache stringify prefix isStorageAvailable st s =
     (if isStorageAvailable then
        setCacheValue prefix ''profile'' (stringify (profile st))
          (setCacheValue prefix ''profile_images'' (stringify (profileImages st))
             (setCacheValue prefix ''file_date'' (fileDate st) s))
      else s)"

text \<open>
  What \<^verbatim>\<open>loadFromCache\<close> returns. \<^verbatim>\<open>getItem\<close> answers \<^verbatim>\<open>null\<close> for a key that is not
  there, and \<^verbatim>\<open>JSON.parse(null)\<close> parses the text \<^verbatim>\<open>null\<close>.
\<close>

record cached =
  cachedFileDate :: "json option"
  cachedNames :: "names_map option"
  cachedProfile :: "json option"
  cachedProfileImages :: "json option"

definition nothing_cached :: cached where
  "nothing_cached =
     \<lparr>cachedFileDate = None, cachedNames = None, cachedProfile = None,
      cachedProfileImages = None\<rparr>"

definition item_value :: "string option \<Rightarrow> json" where
  "item_value i = (case i of None \<Rightarrow> JNull | Some v \<Rightarrow> JStr v)"

definition item_text :: "string option \<Rightarrow> string" where
  "item_text i = (case i of None \<Rightarrow> ''null'' | Some v \<Rightarrow> v)"

text \<open>
  \<^verbatim>\<open>loadFromCache\<close>, lines 130 to 160: one \<^verbatim>\<open>try\<close> around the three reads and the call
  of \<^verbatim>\<open>getNamesFromJson\<close>; what was assigned before an exception stays.
\<close>

definition loadFromCache :: "parser \<Rightarrow> string \<Rightarrow> storage \<Rightarrow> cached" where
  "loadFromCache parse prefix s =
     (case getItem s (cache_key prefix ''file_date'') of
        Inl e \<Rightarrow> nothing_cached
      | Inr d \<Rightarrow>
          (let c1 = nothing_cached\<lparr>cachedFileDate := Some (item_value d)\<rparr> in
           case getItem s (cache_key prefix ''profile'') of
             Inl e \<Rightarrow> c1
           | Inr p \<Rightarrow>
               (case parse (item_text p) of
                  Inl e \<Rightarrow> c1
                | Inr pj \<Rightarrow>
                    (let c2 = c1\<lparr>cachedProfile := Some pj\<rparr> in
                     case getItem s (cache_key prefix ''profile_images'') of
                       Inl e \<Rightarrow> c2
                     | Inr i \<Rightarrow>
                         (case parse (item_text i) of
                            Inl e \<Rightarrow> c2
                          | Inr ij \<Rightarrow>
                              (let c3 = c2\<lparr>cachedProfileImages := Some ij\<rparr> in
                               if truthy (Some pj) then
                                 (case getNamesFromJson (Some pj) of
                                    Inl e \<Rightarrow> c3
                                  | Inr n \<Rightarrow> c3\<lparr>cachedNames := Some n\<rparr>)
                               else c3))))))"

text \<open>
  The first render of \<^verbatim>\<open>App\<close>, lines 168 to 177: the state the component starts from.
  \<^verbatim>\<open>EXAMPLE_PROFILE\<close> is the empty string.
\<close>

definition or_default :: "json option \<Rightarrow> json \<Rightarrow> json" where
  "or_default a d = (case a of None \<Rightarrow> d | Some v \<Rightarrow> if truthy (Some v) then v else d)"

definition App_init :: "parser \<Rightarrow> string \<Rightarrow> bool \<Rightarrow> storage \<Rightarrow> app_state" where
  "App_init parse prefix isStorageAvailable s =
     (let c = (if isStorageAvailable then loadFromCache parse prefix s else nothing_cached) in
      \<lparr>profile = or_default (cachedProfile c) (JStr ''''),
       profileImages = or_default (cachedProfileImages c) (JArr []),
       names = (case cachedNames c of None \<Rightarrow> Map.empty | Some n \<Rightarrow> n),
       fileDate = (case or_default (cachedFileDate c) (JStr '''') of JStr d \<Rightarrow> d | _ \<Rightarrow> ''''),
       isProcessing = False\<rparr>)"

section \<open>Notions used in the statements, and examples\<close>

text \<open>
  What \<open>collectName\<close> stores for a visit, and where: the key the id of the visit yields and
  the \<^verbatim>\<open>{ displayName, username }\<close> object.
\<close>

definition personId :: "visit_ref \<Rightarrow> json option \<Rightarrow> key" where
  "personId r visit = key_of r (opt_member (opt_member (person_of visit) ''profile'') ''id'')"

definition identity_of :: "json option \<Rightarrow> identity" where
  "identity_of visit =
     \<lparr>displayName = opt_member (opt_member (person_of visit) ''profile'') ''display_name'',
      username = opt_member (person_of visit) ''username''\<rparr>"

text \<open>
  The visit records of a document in the order of processing: those of the host
  collection, then those of the surfer collection, each with its place. A collection
  that is no array has none.
\<close>

definition records_of :: "collection \<Rightarrow> json option \<Rightarrow> (visit_ref \<times> json) list" where
  "records_of c v =
     (case v of
        Some (JArr xs) \<Rightarrow> map (\<lambda>(i, x). ((c, i), x)) (enumerate 0 xs)
      | _ \<Rightarrow> [])"

definition visit_sequence :: "json option \<Rightarrow> (visit_ref \<times> json) list" where
  "visit_sequence json =
     records_of HostVisits (opt_member (opt_member json ''couch_visits'') ''host_couch_visits'') @
     records_of SurferVisits (opt_member (opt_member json ''couch_visits'') ''surfer_couch_visits'')"

text \<open>A collection that \<open>getNamesFromJson\<close> can go through: an array, or a falsy value, which it skips.\<close>

definition array_or_falsy :: "json option \<Rightarrow> bool" where
  "array_or_falsy v \<longleftrightarrow> (case v of Some (JArr xs) \<Rightarrow> True | _ \<Rightarrow> \<not> truthy v)"


text \<open>A document with two host-side visits and one surfer-side visit; ids 7, 9 and 7.\<close>

definition example_visit :: "string \<Rightarrow> string \<Rightarrow> int \<Rightarrow> string \<Rightarrow> json" where
  "example_visit side uname n dname =
     JObj [(side, JObj [(''username'', JStr uname),
                        (''profile'', JObj [(''id'', JNum n), (''display_name'', JStr dname)])])]"

definition example_document :: json where
  "example_document =
     JObj [(''couch_visits'',
            JObj [(''host_couch_visits'',
                   JArr [example_visit ''surfer'' ''ann'' 7 ''Ann'',
                         example_visit ''surfer'' ''cy'' 9 ''Cy'']),
                  (''surfer_couch_visits'',
                   JArr [example_visit ''host'' ''anna'' 7 ''Anna B.''])])]"

text \<open>
  A document none of whose three visits yields an id: the first has a surfer without a
  profile, the second is a number, the third has a host without a profile.
\<close>

definition anonymous_document :: json where
  "anonymous_document =
     JObj [(''couch_visits'',
            JObj [(''host_couch_visits'',
                   JArr [JObj [(''surfer'', JObj [(''username'', JStr ''first'')])], JNum 5]),
                  (''surfer_couch_visits'',
                   JArr [JObj [(''host'', JObj [(''username'', JStr ''last'')])]])])]"

text \<open>
  A visit with both persons, whose surfer carries one \<^verbatim>\<open>username\<close> of its own and
  another inside its profile.
\<close>

definition example_both :: json where
  "example_both =
     JObj [(''surfer'',
            JObj [(''username'', JStr ''bob''),
                  (''profile'',
                   JObj [(''id'', JNum 7), (''display_name'', JStr ''Bob''),
                         (''username'', JStr ''zed'')])]),
           (''host'',
            JObj [(''username'', JStr ''hal''),
                  (''profile'', JObj [(''id'', JNum 8), (''display_name'', JStr ''Hal'')])])]"

text \<open>
  The selection of entries in the words of the specification: by the lowercase extension
  suffix of the name, the part after its last dot put in lower case; a name without a dot
  has none. An entry is a document entry when it is no directory and that suffix is
  \<^verbatim>\<open>json\<close>, an image entry when it is one of \<^verbatim>\<open>jpg\<close>, \<^verbatim>\<open>gif\<close>, \<^verbatim>\<open>png\<close>.
\<close>

definition lower_char :: "char \<Rightarrow> char" where
  "lower_char c =
     (case map_of (zip ''ABCDEFGHIJKLMNOPQRSTUVWXYZ'' ''abcdefghijklmnopqrstuvwxyz'') c of
        None \<Rightarrow> c
      | Some l \<Rightarrow> l)"

definition spec_extension :: "string \<Rightarrow> string option" where
  "spec_extension n =
     (if CHR ''.'' \<in> set n
      then Some (map lower_char (rev (takeWhile (\<lambda>c. c \<noteq> CHR ''.'') (rev n))))
      else None)"

definition spec_document_entry :: "zipEntry \<Rightarrow> bool" where
  "spec_document_entry e \<longleftrightarrow> \<not> dir e \<and> spec_extension (name e) = Some ''json''"

definition spec_image_entry :: "zipEntry \<Rightarrow> bool" where
  "spec_image_entry e \<longleftrightarrow>
     \<not> dir e \<and> spec_extension (name e) \<in> {Some ''jpg'', Some ''gif'', Some ''png''}"

text \<open>Entries of archives: a file of the given name and text.\<close>

definition entry :: "string \<Rightarrow> string \<Rightarrow> zipEntry" where
  "entry n t = \<lparr>name = n, dir = False, content = Inr t\<rparr>"

text \<open>
  \<^verbatim>\<open>JSON.parse\<close> and \<^verbatim>\<open>JSON.stringify\<close> on the texts and values of the examples (a finite
  part of each; the theorems hold for any parser and any serialiser). \<open>example_text\<close> is
  the text of \<open>example_document\<close>, and \<open>no_array_text\<close> that of a document whose host
  collection is the number 1.
\<close>

definition example_text :: string where
  \<open>example_text =
     ''{"couch_visits":{"host_couch_visits":[{"surfer":{"username":"ann","profile":{"id":7,"display_name":"Ann"}}},{"surfer":{"username":"cy","profile":{"id":9,"display_name":"Cy"}}}],"surfer_couch_visits":[{"host":{"username":"anna","profile":{"id":7,"display_name":"Anna B."}}}]}}''\<close>

definition no_array_document :: json where
  "no_array_document = JObj [(''couch_visits'', JObj [(''host_couch_visits'', JNum 1)])]"

definition no_array_text :: string where
  \<open>no_array_text = ''{"couch_visits":{"host_couch_visits":1}}''\<close>

definition example_parse :: parser where
  \<open>example_parse t =
     (if t = example_text then Inr example_document
      else if t = no_array_text then Inr no_array_document
      else if t = ''null'' then Inr JNull
      else if t = ''""'' then Inr (JStr '''')
      else if t = ''[]'' then Inr (JArr [])
      else if t = ''{}'' then Inr (JObj [])
      else Inl SyntaxError)\<close>

definition example_stringify :: "json \<Rightarrow> string" where
  \<open>example_stringify v =
     (if v = example_document then example_text
      else if v = no_array_document then no_array_text
      else if v = JNull then ''null''
      else if v = JStr '''' then ''""''
      else if v = JArr [] then ''[]''
      else if v = JObj [] then ''{}''
      else ''?'')\<close>

text \<open>
  The state of a first render without a cache, and a state after an archive with
  \<open>example_document\<close> and one image has been taken in.
\<close>

definition initial_state :: app_state where
  "initial_state =
     \<lparr>profile = JStr '''', profileImages = JArr [], names = Map.empty, fileDate = '''',
      isProcessing = False\<rparr>"

definition example_index :: names_map where
  "example_index =
     [KNum 7 \<mapsto> \<lparr>displayName = Some (JStr ''Anna B.''), username = Some (JStr ''anna'')\<rparr>,
      KNum 9 \<mapsto> \<lparr>displayName = Some (JStr ''Cy''), username = Some (JStr ''cy'')\<rparr>]"

definition ready_state :: app_state where
  "ready_state =
     \<lparr>profile = example_document,
      profileImages = JArr [JObj [(''blobUrl'', JStr (blob_url 0)), (''id'', JStr ''photo.png'')]],
      names = example_index,
      fileDate = ''Mon Jan 01 2024 10:00:00 GMT+0000'',
      isProcessing = False\<rparr>"

text \<open>Dropped files: an archive with the given entries, and a document with the given text.\<close>

definition zip_upload :: "error + zip \<Rightarrow> string option \<Rightarrow> dropped_file" where
  "zip_upload z d =
     \<lparr>file_type = ''application/zip'', lastModifiedDate = d, file_text = Inr ''PK'',
      file_archive = z\<rparr>"

definition json_upload :: "string \<Rightarrow> string option \<Rightarrow> dropped_file" where
  "json_upload t d =
     \<lparr>file_type = ''application/json'', lastModifiedDate = d, file_text = Inr t,
      file_archive = Inl CorruptArchive\<rparr>"

text \<open>An archive with one document, two images, a directory and a file of another kind.\<close>

definition example_archive :: zip where
  "example_archive =
     [entry ''readme.txt'' ''hello'',
      \<lparr>name = ''images/'', dir = True, content = Inr []\<rparr>,
      entry ''profile.json'' example_text,
      entry ''images/photo.png'' ''PNGDATA'',
      entry ''images/pic.jpg'' ''JPGDATA'']"

text \<open>
  A state after \<open>example_document\<close> has been taken in from a document file, an empty
  session storage with room, and storages as another writer could have left them: one
  whose cached document has a host collection that is no array, one whose cached images
  are no JSON text.
\<close>

definition document_state :: app_state where
  "document_state =
     \<lparr>profile = example_document, profileImages = JArr [], names = example_index,
      fileDate = ''Mon Jan 01 2024 10:00:00 GMT+0000'', isProcessing = False\<rparr>"

definition empty_storage :: storage where
  "empty_storage = \<lparr>blocked = False, quota = 5000000, items = []\<rparr>"

definition no_array_storage :: storage where
  "no_array_storage =
     \<lparr>blocked = False, quota = 5000000,
      items = [(''cs_file_date'', ''Mon Jan 01 2024 10:00:00 GMT+0000''),
               (''cs_profile_images'', ''[]''),
               (''cs_profile'', no_array_text)]\<rparr>"

definition bad_images_storage :: storage where
  "bad_images_storage =
     \<lparr>blocked = False, quota = 5000000,
      items = [(''cs_file_date'', ''Mon Jan 01 2024 10:00:00 GMT+0000''),
               (''cs_profile_images'', ''[1,''),
               (''cs_profile'', example_text)]\<rparr>"

definition good_storage :: storage where
  "good_storage =
     \<lparr>blocked = False, quota = 5000000,
      items = [(''cs_file_date'', ''Mon Jan 01 2024 10:00:00 GMT+0000''),
               (''cs_profile_images'', ''[]''),
               (''cs_profile'', example_text)]\<rparr>"

text \<open>A session storage with room for the date and the images of the examples, not for the document.\<close>

definition small_storage :: storage where
  "small_storage = \<lparr>blocked = False, quota = 150, items = []\<rparr>"

section \<open>Properties\<close>

subsection \<open>The identity index\<close>

lemma collectName_upd: "collectName r visit m = m(personId r visit \<mapsto> identity_of visit)"
  by (simp add: collectName_def personId_def identity_of_def Let_def)



lemma member_js_truthy:
  "truthy (opt_member a k) \<Longrightarrow> member_js a k = Inr (opt_member a k)"
  by (cases a rule: truthy.cases) simp_all

lemma visits_truthy:
  assumes "truthy (opt_member (opt_member json ''couch_visits'') k)"
  shows "visits json k = Inr (opt_member (opt_member json ''couch_visits'') k)"
proof -
  have 1: "member_js json ''couch_visits'' = Inr (opt_member json ''couch_visits'')"
    using assms by (cases json rule: truthy.cases) simp_all
  have 2: "member_js (opt_member json ''couch_visits'') k =
      Inr (opt_member (opt_member json ''couch_visits'') k)"
    using assms by (rule member_js_truthy)
  show ?thesis by (simp add: visits_def 1 2)
qed

lemma forEach_records:
  "forEach c (Some (JArr xs)) collectName m =
     Inr (fold (\<lambda>(r, v). collectName r (Some v)) (records_of c (Some (JArr xs))) m)"
  by (simp add: records_of_def fold_map comp_def case_prod_unfold)

lemma collect_Inr:
  assumes "collect c k json m = Inr m'"
  shows "m' = fold (\<lambda>(r, v). collectName r (Some v))
                (records_of c (opt_member (opt_member json ''couch_visits'') k)) m"
proof (cases "truthy (opt_member (opt_member json ''couch_visits'') k)")
  case True
  note t = this
  from assms t visits_truthy[OF t]
  have fe: "forEach c (opt_member (opt_member json ''couch_visits'') k) collectName m = Inr m'"
    by (simp add: collect_def)
  then obtain xs where xs: "opt_member (opt_member json ''couch_visits'') k = Some (JArr xs)"
    by (cases "opt_member (opt_member json ''couch_visits'') k" rule: truthy.cases) simp_all
  from fe show ?thesis unfolding xs forEach_records by simp
next
  case False
  with assms have "m' = m" by (simp add: collect_def)
  moreover from False have "records_of c (opt_member (opt_member json ''couch_visits'') k) = []"
    by (cases "opt_member (opt_member json ''couch_visits'') k" rule: truthy.cases)
      (simp_all add: records_of_def)
  ultimately show ?thesis by simp
qed

lemma getNamesFromJson_fold:
  assumes "getNamesFromJson json = Inr idx"
  shows "idx = fold (\<lambda>(r, v). collectName r (Some v)) (visit_sequence json) Map.empty"
proof -
  from assms obtain m1 where
    1: "collect HostVisits ''host_couch_visits'' json Map.empty = Inr m1" and
    2: "collect SurferVisits ''surfer_couch_visits'' json m1 = Inr idx"
    by (auto simp: getNamesFromJson_def split: sum.splits)
  show ?thesis
    using collect_Inr[OF 1] collect_Inr[OF 2] by (simp add: visit_sequence_def)
qed

lemma collect_returns_iff:
  "(\<exists>m'. collect c k json m = Inr m') \<longleftrightarrow>
     array_or_falsy (opt_member (opt_member json ''couch_visits'') k)"
proof (cases "truthy (opt_member (opt_member json ''couch_visits'') k)")
  case True
  show ?thesis
    using True visits_truthy[OF True]
    by (cases "opt_member (opt_member json ''couch_visits'') k" rule: truthy.cases)
      (simp_all add: collect_def array_or_falsy_def)
next
  case False
  then show ?thesis
    by (cases "opt_member (opt_member json ''couch_visits'') k" rule: truthy.cases)
      (simp_all add: collect_def array_or_falsy_def)
qed

lemma getNamesFromJson_returns_iff:
  "(\<exists>idx. getNamesFromJson json = Inr idx) \<longleftrightarrow>
     array_or_falsy (opt_member (opt_member json ''couch_visits'') ''host_couch_visits'') \<and>
     array_or_falsy (opt_member (opt_member json ''couch_visits'') ''surfer_couch_visits'')"
proof -
  have "(\<exists>idx. getNamesFromJson json = Inr idx) \<longleftrightarrow>
      (\<exists>m1. collect HostVisits ''host_couch_visits'' json Map.empty = Inr m1 \<and>
            (\<exists>idx. collect SurferVisits ''surfer_couch_visits'' json m1 = Inr idx))"
    by (auto simp: getNamesFromJson_def split: sum.splits)
  also have "\<dots> \<longleftrightarrow>
      (\<exists>m1. collect HostVisits ''host_couch_visits'' json Map.empty = Inr m1) \<and>
      array_or_falsy (opt_member (opt_member json ''couch_visits'') ''surfer_couch_visits'')"
    by (simp add: collect_returns_iff)
  finally show ?thesis by (simp add: collect_returns_iff)
qed

lemma example_visit_personId:
  "side = ''surfer'' \<or> side = ''host'' \<Longrightarrow> personId r (Some (example_visit side u n d)) = KNum n"
  by (auto simp: personId_def person_of_def or_else_def example_visit_def)

lemma example_visit_identity:
  "side = ''surfer'' \<or> side = ''host'' \<Longrightarrow>
     identity_of (Some (example_visit side u n d)) =
       \<lparr>displayName = Some (JStr d), username = Some (JStr u)\<rparr>"
  by (auto simp: identity_of_def person_of_def or_else_def example_visit_def)

lemma example_document_sequence:
  "visit_sequence (Some example_document) =
     [((HostVisits, 0), example_visit ''surfer'' ''ann'' 7 ''Ann''),
      ((HostVisits, 1), example_visit ''surfer'' ''cy'' 9 ''Cy''),
      ((SurferVisits, 0), example_visit ''host'' ''anna'' 7 ''Anna B.'')]"
  by (simp add: visit_sequence_def example_document_def records_of_def enumerate_eq_zip)





text \<open>
  C6, as the claim states it, fails: the \<^verbatim>\<open>username\<close> stored is the one of the person, not
  the one inside the profile of the person; and a \<^verbatim>\<open>surfer\<close> that is there but falsy is
  passed over for the host.
\<close>

theorem username_read_from_person_counterexample:
  "opt_member (opt_member (person_of (Some example_both)) ''profile'') ''username'' = Some (JStr ''zed'') \<and>
   collectName (HostVisits, 0) (Some example_both) Map.empty (KNum 7) =
     Some \<lparr>displayName = Some (JStr ''Bob''), username = Some (JStr ''bob'')\<rparr> \<and>
   opt_member (Some (JObj [(''surfer'', JBool False), (''host'', JObj [(''username'', JStr ''hal'')])])) ''surfer''
     = Some (JBool False) \<and>
   person_of (Some (JObj [(''surfer'', JBool False), (''host'', JObj [(''username'', JStr ''hal'')])])) =
     Some (JObj [(''username'', JStr ''hal'')])"
  by (simp add: person_of_def or_else_def example_both_def collectName_def)

text \<open>
  C6, amended. The person of a visit is its \<^verbatim>\<open>surfer\<close> when that is truthy, else its
  \<^verbatim>\<open>host\<close> when that is truthy, else an empty object. The personId and the displayName
  come from the \<^verbatim>\<open>profile\<close> of the person (\<^verbatim>\<open>id\<close>, \<^verbatim>\<open>display_name\<close>), the username
  from the person itself. Whatever is missing is absent in what is stored, and no record
  makes \<open>getNamesFromJson\<close> fail: it returns an index exactly when each of the two
  collections is an array or falsy, whatever the records are.
\<close>

theorem collectName_sources:
  "person_of visit =
     (if truthy (opt_member visit ''surfer'') then opt_member visit ''surfer''
      else if truthy (opt_member visit ''host'') then opt_member visit ''host''
      else Some (JObj [])) \<and>
   collectName r visit m =
     m(key_of r (opt_member (opt_member (person_of visit) ''profile'') ''id'') \<mapsto>
        \<lparr>displayName = opt_member (opt_member (person_of visit) ''profile'') ''display_name'',
         username = opt_member (person_of visit) ''username''\<rparr>) \<and>
   (person_of visit = Some (JObj []) \<longrightarrow>
      collectName r visit m = m(KUndefined \<mapsto> \<lparr>displayName = None, username = None\<rparr>)) \<and>
   (opt_member (person_of visit) ''profile'' = None \<longrightarrow>
      collectName r visit m =
        m(KUndefined \<mapsto> \<lparr>displayName = None, username = opt_member (person_of visit) ''username''\<rparr>)) \<and>
   ((\<exists>idx. getNamesFromJson json = Inr idx) \<longleftrightarrow>
      array_or_falsy (opt_member (opt_member json ''couch_visits'') ''host_couch_visits'') \<and>
      array_or_falsy (opt_member (opt_member json ''couch_visits'') ''surfer_couch_visits''))"
  using getNamesFromJson_returns_iff[of json]
  by (simp add: collectName_def Let_def person_of_def or_else_def)

theorem collectName_sources_witness:
  "person_of (Some (JNum 5)) = Some (JObj []) \<and>
   collectName (SurferVisits, 3) (Some (JNum 5)) Map.empty KUndefined =
     Some \<lparr>displayName = None, username = None\<rparr> \<and>
   opt_member (person_of (Some (JObj [(''host'', JObj [(''username'', JStr ''hal'')])]))) ''profile'' = None \<and>
   collectName (SurferVisits, 3) (Some (JObj [(''host'', JObj [(''username'', JStr ''hal'')])])) Map.empty KUndefined =
     Some \<lparr>displayName = None, username = Some (JStr ''hal'')\<rparr> \<and>
   (\<exists>idx. getNamesFromJson (Some anonymous_document) = Inr idx)"
proof -
  let ?h = "Some (JObj [(''host'', JObj [(''username'', JStr ''hal'')])])"
  have p: "person_of (Some (JNum 5)) = Some (JObj [])"
    by (simp add: person_of_def or_else_def)
  have q: "opt_member (person_of ?h) ''profile'' = None"
    by (simp add: person_of_def or_else_def)
  have u: "opt_member (person_of ?h) ''username'' = Some (JStr ''hal'')"
    by (simp add: person_of_def or_else_def)
  have a: "array_or_falsy (opt_member (opt_member (Some anonymous_document) ''couch_visits'') ''host_couch_visits'') \<and>
      array_or_falsy (opt_member (opt_member (Some anonymous_document) ''couch_visits'') ''surfer_couch_visits'')"
    by (simp add: anonymous_document_def array_or_falsy_def)
  from collectName_sources[of "Some (JNum 5)" "(SurferVisits, 3)" Map.empty "Some anonymous_document"] p a
  have 1: "collectName (SurferVisits, 3) (Some (JNum 5)) Map.empty =
      Map.empty(KUndefined \<mapsto> \<lparr>displayName = None, username = None\<rparr>)"
    and 3: "\<exists>idx. getNamesFromJson (Some anonymous_document) = Inr idx"
    by blast+
  from collectName_sources[of ?h "(SurferVisits, 3)" Map.empty] q
  have "collectName (SurferVisits, 3) ?h Map.empty =
      Map.empty(KUndefined \<mapsto> \<lparr>displayName = None, username = opt_member (person_of ?h) ''username''\<rparr>)"
    by blast
  then have 2: "collectName (SurferVisits, 3) ?h Map.empty KUndefined =
      Some \<lparr>displayName = None, username = Some (JStr ''hal'')\<rparr>"
    by (simp add: u)
  show ?thesis using p q 1 2 3 by simp
qed

subsection \<open>The selection of archive entries\<close>

lemma split_js_nonempty: "split_js c s \<noteq> []"
  by (induction s) (auto split: list.splits)

lemma split_js_no_sep: "c \<notin> set s \<Longrightarrow> split_js c s = [s]"
  by (induction s) auto

lemma last_split_js_Cons:
  "last (split_js c (x # xs)) = (if x = c \<or> c \<in> set xs then last (split_js c xs) else x # xs)"
proof (cases "x = c")
  case True
  then show ?thesis by (simp add: split_js_nonempty)
next
  case False
  show ?thesis
  proof (cases "c \<in> set xs")
    case False
    with \<open>x \<noteq> c\<close> show ?thesis by (simp add: split_js_no_sep)
  next
    case True
    have "length (split_js c xs) \<ge> 2" using True
      by (induction xs) (auto split: list.splits simp: split_js_nonempty Suc_le_eq)
    then obtain w w' ws where "split_js c xs = w # w' # ws"
      by (cases "split_js c xs"; cases "tl (split_js c xs)") auto
    with \<open>x \<noteq> c\<close> True show ?thesis by simp
  qed
qed

lemma last_split_js:
  "last (split_js c s) = w \<longleftrightarrow> c \<notin> set w \<and> (s = w \<or> (\<exists>pre. s = pre @ c # w))"
proof (induction s)
  case Nil
  show ?case by auto
next
  case (Cons x xs)
  show ?case
  proof (cases "x = c \<or> c \<in> set xs")
    case True
    then have "last (split_js c (x # xs)) = w \<longleftrightarrow> c \<notin> set w \<and> (xs = w \<or> (\<exists>pre. xs = pre @ c # w))"
      by (simp only: last_split_js_Cons Cons.IH if_True)
    also have "\<dots> \<longleftrightarrow> c \<notin> set w \<and> (x # xs = w \<or> (\<exists>pre. x # xs = pre @ c # w))"
    proof (intro iffI conjI; elim conjE)
      assume "c \<notin> set w" and "xs = w \<or> (\<exists>pre. xs = pre @ c # w)"
      then show "x # xs = w \<or> (\<exists>pre. x # xs = pre @ c # w)"
      proof (elim disjE exE)
        assume "xs = w"
        with \<open>c \<notin> set w\<close> True have "x # xs = [] @ c # w" by auto
        then show ?thesis by blast
      next
        fix pre assume "xs = pre @ c # w"
        then have "x # xs = (x # pre) @ c # w" by simp
        then show ?thesis by blast
      qed
    next
      assume "c \<notin> set w" and "x # xs = w \<or> (\<exists>pre. x # xs = pre @ c # w)"
      then show "xs = w \<or> (\<exists>pre. xs = pre @ c # w)"
        using True by (auto simp: Cons_eq_append_conv)
    qed
    finally show ?thesis .
  next
    case False
    then have l: "last (split_js c (x # xs)) = x # xs"
      by (simp only: last_split_js_Cons if_False)
    have "x # xs \<noteq> pre @ c # w" for pre
    proof
      assume "x # xs = pre @ c # w"
      then have "c \<in> set (x # xs)" by simp
      with False show False by simp
    qed
    with False show ?thesis unfolding l by auto
  qed
qed

lemma pop_split_js:
  "pop (split_js c s) = Some w \<longleftrightarrow> c \<notin> set w \<and> (s = w \<or> (\<exists>pre. s = pre @ c # w))"
  by (simp add: pop_def split_js_nonempty last_split_js)

lemma json_filter_iff:
  "json_filter e \<longleftrightarrow> \<not> dir e \<and> (name e = ''json'' \<or> (\<exists>pre. name e = pre @ ''.json''))"
  by (simp add: json_filter_def pop_split_js)

lemma image_filter_iff:
  "image_filter e \<longleftrightarrow>
     \<not> dir e \<and> (\<exists>x \<in> {''jpg'', ''gif'', ''png''}. name e = x \<or> (\<exists>pre. name e = pre @ ''.'' @ x))"
proof -
  have "includes_js xs (pop (split_js c s)) \<longleftrightarrow> (\<exists>x \<in> set xs. pop (split_js c s) = Some x)" for xs c s
    by (auto simp: includes_js_def split: option.splits)
  then show ?thesis
    by (simp add: image_filter_def pop_split_js)
qed

lemma find_distinct_name:
  "distinct (map name z) \<Longrightarrow> e \<in> set z \<Longrightarrow> find (\<lambda>x. name x = name e) z = Some e"
  by (induction z) (auto simp: image_iff)

lemma zip_file_distinct:
  "distinct (map name z) \<Longrightarrow> e \<in> set z \<Longrightarrow> zip_file z (name e) = (if dir e then None else Some e)"
  by (simp add: zip_file_def find_distinct_name)

lemma filter_head_mem: "filter P z = d # rest \<Longrightarrow> d \<in> set z \<and> P d"
  by (metis filter_eq_ConsD in_set_conv_decomp)

lemma getJsonFromZip_first:
  assumes "distinct (map name z)" and "filter json_filter z = d # rest"
  shows "getJsonFromZip parse z =
     (case content d of
        Inl e \<Rightarrow> Inl e
      | Inr t \<Rightarrow> (case parse t of Inr j \<Rightarrow> Inr j | Inl e \<Rightarrow> Inr (JBool False)))"
proof -
  from filter_head_mem[OF assms(2)] have d: "d \<in> set z" "\<not> dir d"
    by (simp_all add: json_filter_def)
  then have "zip_file z (name d) = Some d"
    using assms(1) by (simp add: zip_file_distinct)
  then show ?thesis by (simp add: getJsonFromZip_def assms(2))
qed

text \<open>
  C8, as the claim states it, fails. The filters compare the last segment of the name as
  it is written, so an upper-case extension is not selected; and a name without a dot is
  its own last segment, so a file called \<^verbatim>\<open>json\<close> or \<^verbatim>\<open>png\<close> is selected though it has
  no extension.
\<close>

theorem extension_compared_as_written_counterexample:
  "spec_document_entry (entry ''Profile.JSON'' ''{}'') \<and>
   \<not> json_filter (entry ''Profile.JSON'' ''{}'') \<and>
   spec_image_entry (entry ''PHOTO.JPG'' ''x'') \<and>
   \<not> image_filter (entry ''PHOTO.JPG'' ''x'') \<and>
   json_filter (entry ''json'' ''{}'') \<and>
   \<not> spec_document_entry (entry ''json'' ''{}'') \<and>
   image_filter (entry ''png'' ''x'') \<and>
   \<not> spec_image_entry (entry ''png'' ''x'')"
  by code_simp

text \<open>
  C8, amended. An entry is a candidate document iff it is no directory and its name is
  \<^verbatim>\<open>json\<close> or ends with \<^verbatim>\<open>.json\<close>, compared as written; a candidate image iff it is no
  directory and its name is, or ends with a dot and, one of \<^verbatim>\<open>jpg\<close>, \<^verbatim>\<open>gif\<close>,
  \<^verbatim>\<open>png\<close>. When several documents match, \<open>getJsonFromZip\<close> answers what it answers on
  the first one alone: the others are not looked at.
\<close>

theorem entries_selected_by_last_segment:
  "(json_filter e \<longleftrightarrow> \<not> dir e \<and> (name e = ''json'' \<or> (\<exists>pre. name e = pre @ ''.json''))) \<and>
   (image_filter e \<longleftrightarrow>
      \<not> dir e \<and> (\<exists>x \<in> {''jpg'', ''gif'', ''png''}. name e = x \<or> (\<exists>pre. name e = pre @ ''.'' @ x))) \<and>
   (distinct (map name z) \<and> filter json_filter z = d # rest \<longrightarrow>
      getJsonFromZip parse z = getJsonFromZip parse [d] \<and>
      getJsonFromZip parse z =
        (case content d of
           Inl e \<Rightarrow> Inl e
         | Inr t \<Rightarrow> (case parse t of Inr j \<Rightarrow> Inr j | Inl e \<Rightarrow> Inr (JBool False))))"
proof (intro conjI impI)
  show "json_filter e \<longleftrightarrow> \<not> dir e \<and> (name e = ''json'' \<or> (\<exists>pre. name e = pre @ ''.json''))"
    by (rule json_filter_iff)
  show "image_filter e \<longleftrightarrow>
      \<not> dir e \<and> (\<exists>x \<in> {''jpg'', ''gif'', ''png''}. name e = x \<or> (\<exists>pre. name e = pre @ ''.'' @ x))"
    by (rule image_filter_iff)
next
  assume h: "distinct (map name z) \<and> filter json_filter z = d # rest"
  then have jd: "json_filter d" using filter_head_mem[of json_filter z d rest] by simp
  have one: "getJsonFromZip parse [d] =
        (case content d of
           Inl e \<Rightarrow> Inl e
         | Inr t \<Rightarrow> (case parse t of Inr j \<Rightarrow> Inr j | Inl e \<Rightarrow> Inr (JBool False)))"
    using jd getJsonFromZip_first[of "[d]" d "[]" parse] by simp
  show "getJsonFromZip parse z =
        (case content d of
           Inl e \<Rightarrow> Inl e
         | Inr t \<Rightarrow> (case parse t of Inr j \<Rightarrow> Inr j | Inl e \<Rightarrow> Inr (JBool False)))"
    using h getJsonFromZip_first[of z d rest parse] by simp
  then show "getJsonFromZip parse z = getJsonFromZip parse [d]" by (simp add: one)
qed


theorem entries_selected_by_last_segment_witness:
  "json_filter (entry ''data/profile.json'' example_text) \<and>
   \<not> json_filter (entry ''profile.json.bak'' example_text) \<and>
   \<not> json_filter \<lparr>name = ''old.json'', dir = True, content = Inr []\<rparr> \<and>
   image_filter (entry ''photo.png'' ''x'') \<and>
   \<not> image_filter (entry ''photo.jpeg'' ''x'') \<and>
   getJsonFromZip example_parse
     [entry ''readme.txt'' ''hello'', entry ''data/profile.json'' example_text,
      entry ''photo.png'' ''x'', entry ''second.json'' ''{}''] = Inr example_document"
proof -
  let ?z = "[entry ''readme.txt'' ''hello'', entry ''data/profile.json'' example_text,
      entry ''photo.png'' ''x'', entry ''second.json'' ''{}'']"
  have 1: "json_filter (entry ''data/profile.json'' example_text)"
    by code_simp
  have 2: "\<not> json_filter (entry ''profile.json.bak'' example_text)"
    by code_simp
  have 3: "\<not> json_filter \<lparr>name = ''old.json'', dir = True, content = Inr []\<rparr>"
    by code_simp
  have 4: "image_filter (entry ''photo.png'' ''x'')"
    by code_simp
  have 5: "\<not> image_filter (entry ''photo.jpeg'' ''x'')"
    by code_simp
  have d: "distinct (map name ?z)" by (simp add: entry_def)
  have f: "filter json_filter ?z = [entry ''data/profile.json'' example_text, entry ''second.json'' ''{}'']"
    by code_simp
  from entries_selected_by_last_segment
         [of _ ?z "entry ''data/profile.json'' example_text" "[entry ''second.json'' ''{}'']" example_parse]
       d f
  have "getJsonFromZip example_parse ?z =
        (case content (entry ''data/profile.json'' example_text) of
           Inl e \<Rightarrow> Inl e
         | Inr t \<Rightarrow> (case example_parse t of Inr j \<Rightarrow> Inr j | Inl e \<Rightarrow> Inr (JBool False)))"
    by blast
  then have 6: "getJsonFromZip example_parse ?z = Inr example_document"
    by (simp add: entry_def example_parse_def)
  show ?thesis by (intro conjI 1 2 3 4 5 6)
qed

subsection \<open>A drop\<close>

lemma example_document_index: "getNamesFromJson (Some example_document) = Inr example_index"
proof -
  obtain idx where g: "getNamesFromJson (Some example_document) = Inr idx"
    by (auto simp: getNamesFromJson_def collect_def visits_def example_document_def)
  have "idx k = example_index k" for k
    using getNamesFromJson_fold[OF g]
    by (simp add: example_document_sequence collectName_upd example_visit_personId
        example_visit_identity example_index_def)
  then show ?thesis using g by auto
qed

lemma onDrop_single:
  "onDrop parse (Some [f]) st store =
     (if file_type f = ''application/zip''
      then onDrop_zip parse f (recordFileDate f (st\<lparr>isProcessing := True\<rparr>)) store
      else if file_type f = ''application/json''
      then (case onDrop_json parse f (recordFileDate f (st\<lparr>isProcessing := True\<rparr>)) of
              (out, st') \<Rightarrow> (out, st', store))
      else (Alerted UnsupportedType, st\<lparr>isProcessing := False\<rparr>, store))"
  by (simp add: onDrop_def includes_js_def Let_def)

text \<open>
  Every drop that ends otherwise than by a rejected promise has cleared the flag.
\<close>

lemma onDrop_settled_clears_processing:
  assumes "onDrop parse acceptedFiles st store = (out, st', store')" and "\<forall>e. out \<noteq> Rejected e"
  shows "\<not> isProcessing st'"
  using assms
  by (auto simp: onDrop_def includes_js_def Let_def onDrop_zip_def onDrop_json_def
      split: option.splits if_splits sum.splits prod.splits)

text \<open>And a drop that ends by a rejected promise has left it set.\<close>

lemma onDrop_rejected_keeps_processing:
  assumes "onDrop parse acceptedFiles st store = (Rejected e, st', store')"
  shows "isProcessing st'"
  using assms
  by (auto simp: onDrop_def includes_js_def Let_def onDrop_zip_def onDrop_json_def recordFileDate_def
      split: option.splits if_splits sum.splits prod.splits)

text \<open>So has the drop of a document file that cannot be read.\<close>

lemma unreadable_file_leaves_processing_set:
  assumes "file_type f = ''application/json''" and "file_text f = Inl e"
  shows "onDrop parse (Some [f]) st store =
     (Rejected e, recordFileDate f (st\<lparr>isProcessing := True\<rparr>), store) \<and>
     isProcessing (recordFileDate f (st\<lparr>isProcessing := True\<rparr>))"
  using assms
  by (simp add: onDrop_single onDrop_json_def readBlobFile_def recordFileDate_def
      split: option.splits)

text \<open>
  C2 fails on the code. \<open>onDrop\<close> clears the flag before each of its four \<^verbatim>\<open>return\<close>s and
  at its end, and the branch of a document file catches what \<^verbatim>\<open>JSON.parse\<close> throws; the
  branch of an archive awaits \<open>extractZip\<close> outside any \<^verbatim>\<open>try\<close>. So when the bytes are no
  archive, or an image of the archive does not decode, the promise is rejected with the
  flag still set.
\<close>

theorem rejected_drop_leaves_processing_set:
  "onDrop example_parse (Some [zip_upload (Inl CorruptArchive) None]) initial_state [] =
     (Rejected CorruptArchive, initial_state\<lparr>isProcessing := True\<rparr>, []) \<and>
   onDrop example_parse
     (Some [zip_upload (Inr [entry ''profile.json'' example_text,
                             \<lparr>name = ''photo.png'', dir = False, content = Inl DecodeError\<rparr>]) None])
     initial_state [] =
     (Rejected DecodeError, initial_state\<lparr>isProcessing := True\<rparr>, []) \<and>
   isProcessing (initial_state\<lparr>isProcessing := True\<rparr>)"
  by (simp add: onDrop_single zip_upload_def onDrop_zip_def extractZip_def recordFileDate_def
      getJsonFromZip_def getImagesFromZip_def imageProcessor_def zip_file_def
      json_filter_def image_filter_def pop_def includes_js_def entry_def example_parse_def)

text \<open>
  The branch of a document file sets the document and the index and nothing else: the
  images stay what they were.
\<close>

lemma json_drop_keeps_images:
  assumes "file_type f = ''application/json''"
    and "onDrop parse (Some [f]) st store = (out, st', store')"
  shows "profileImages st' = profileImages st"
  using assms
  by (auto simp: onDrop_single onDrop_json_def recordFileDate_def
      split: option.splits sum.splits)

text \<open>
  C3 fails on the code. After an archive with an image has been taken in, the drop of a
  well-formed document file commits the new document and its index, and keeps the image
  of the archive: only the branch of an archive calls \<^verbatim>\<open>setProfileImages\<close>.
\<close>

theorem json_drop_keeps_previous_images:
  "(case onDrop example_parse (Some [json_upload ''{}'' None]) ready_state [''x''] of
      (out, st', store') \<Rightarrow>
        out = Scrolled \<and> profile st' = JObj [] \<and> names st' = Map.empty \<and>
        profileImages st' =
          JArr [JObj [(''blobUrl'', JStr (blob_url 0)), (''id'', JStr ''photo.png'')]] \<and>
        profileImages st' \<noteq> JArr [])"
  by (simp add: onDrop_single json_upload_def onDrop_json_def readBlobFile_def recordFileDate_def
      example_parse_def example_text_def no_array_text_def getNamesFromJson_def collect_def
      ready_state_def)

lemma Promise_all_Inr: "Promise_all (map Inr xs) = Inr xs"
  by (induction xs) simp_all

lemma imageProcessor_decoded:
  assumes "distinct (map name z)" "e \<in> set z" "\<not> dir e" "content e = Inr b"
  shows "imageProcessor z e store =
     (Inr (JObj [(''blobUrl'', JStr (blob_url (length store))), (''id'', JStr (name e))]),
      store @ [b])"
  using assms by (simp add: imageProcessor_def zip_file_distinct createObjectURL_def)

lemma map_async_decoded:
  assumes "distinct (map name z)"
    and "\<forall>e \<in> set files. e \<in> set z \<and> \<not> dir e \<and> (\<exists>b. content e = Inr b)"
  shows "map_async (imageProcessor z) files store =
     (map (\<lambda>(i, e). Inr (JObj [(''blobUrl'', JStr (blob_url i)), (''id'', JStr (name e))]))
        (enumerate (length store) files),
      store @ map (\<lambda>e. projr (content e)) files)"
  using assms(2)
proof (induction files arbitrary: store)
  case Nil
  show ?case by simp
next
  case (Cons e files)
  then obtain b where b: "content e = Inr b" by auto
  from Cons.prems have e: "e \<in> set z" "\<not> dir e" by auto
  have rest: "\<forall>e \<in> set files. e \<in> set z \<and> \<not> dir e \<and> (\<exists>b. content e = Inr b)"
    using Cons.prems by simp
  show ?case
    by (simp add: imageProcessor_decoded[OF assms(1) e b] Cons.IH[OF rest] b)
qed

lemma getImagesFromZip_decoded:
  assumes "distinct (map name z)"
    and "\<forall>e \<in> set z. image_filter e \<longrightarrow> (\<exists>b. content e = Inr b)"
  shows "getImagesFromZip z store =
     (Inr (map (\<lambda>(i, e). JObj [(''blobUrl'', JStr (blob_url i)), (''id'', JStr (name e))])
             (enumerate (length store) (filter image_filter z))),
      store @ map (\<lambda>e. projr (content e)) (filter image_filter z))"
proof -
  have "\<forall>e \<in> set (filter image_filter z). e \<in> set z \<and> \<not> dir e \<and> (\<exists>b. content e = Inr b)"
    using assms(2) by (auto simp: image_filter_def)
  from map_async_decoded[OF assms(1) this, of store]
  have m: "map_async (imageProcessor z) (filter image_filter z) store =
     (map Inr (map (\<lambda>(i, e). JObj [(''blobUrl'', JStr (blob_url i)), (''id'', JStr (name e))])
        (enumerate (length store) (filter image_filter z))),
      store @ map (\<lambda>e. projr (content e)) (filter image_filter z))"
    by (simp add: case_prod_unfold comp_def)
  show ?thesis
    unfolding getImagesFromZip_def m by (simp only: prod.case Promise_all_Inr)
qed

lemma blob_url_inj: "blob_url i = blob_url j \<longleftrightarrow> i = j"
proof
  assume "blob_url i = blob_url j"
  then have "length (blob_url i) = length (blob_url j)" by simp
  then show "i = j" by (simp add: blob_url_def)
qed simp

lemma resolve_url_nth: "i < length store \<Longrightarrow> resolve_url store (blob_url i) = Some (store ! i)"
proof -
  assume i: "i < length store"
  have d: "distinct (map blob_url [0..<length store])"
    by (simp add: distinct_map inj_on_def blob_url_inj)
  have "map_of (zip (map blob_url [0..<length store]) store) (map blob_url [0..<length store] ! i)
          = Some (store ! i)"
    using d i by (intro map_of_zip_nth) simp_all
  with i show ?thesis by (simp add: resolve_url_def)
qed


text \<open>
  C1, as the claim states it, fails. The date of the dropped file is recorded before the
  archive is opened, so an archive without a document replaces the \<open>fileDate\<close> of a
  state that was ready; and when an image of such an archive does not decode, the drop
  ends by a rejected promise, not by the alert for a missing document.
\<close>

theorem no_document_counterexample:
  "onDrop example_parse
     (Some [zip_upload (Inr [entry ''photo.png'' ''x'']) (Some ''Tue Jan 02 2024 10:00:00 GMT+0000'')])
     ready_state [''x''] =
     (Alerted NoProfileJson,
      ready_state\<lparr>fileDate := ''Tue Jan 02 2024 10:00:00 GMT+0000''\<rparr>, [''x'', ''x'']) \<and>
   fileDate ready_state \<noteq> ''Tue Jan 02 2024 10:00:00 GMT+0000'' \<and>
   onDrop example_parse
     (Some [zip_upload (Inr [\<lparr>name = ''photo.png'', dir = False, content = Inl DecodeError\<rparr>]) None])
     ready_state [''x''] =
     (Rejected DecodeError, ready_state\<lparr>isProcessing := True\<rparr>, [''x''])"
  by (simp add: onDrop_single zip_upload_def onDrop_zip_def extractZip_def recordFileDate_def
      getJsonFromZip_def getImagesFromZip_def imageProcessor_def zip_file_def createObjectURL_def
      json_filter_def image_filter_def pop_def includes_js_def entry_def ready_state_def)

text \<open>
  C1, amended. For a single file of the archive type whose archive has no document entry
  and whose image entries all decode, the drop ends with the alert for a missing
  document and the flag cleared; the document, the images and the index are what they
  were; \<open>fileDate\<close> is the date of the dropped file when it has one, and what it was
  otherwise.
\<close>

theorem no_document_found:
  assumes "file_type f = ''application/zip''" and "file_archive f = Inr z"
    and "distinct (map name z)" and "filter json_filter z = []"
    and "\<forall>e \<in> set z. image_filter e \<longrightarrow> (\<exists>b. content e = Inr b)"
  shows "\<exists>st' store'.
     onDrop parse (Some [f]) st store = (Alerted NoProfileJson, st', store') \<and>
     profile st' = profile st \<and> profileImages st' = profileImages st \<and> names st' = names st \<and>
     fileDate st' = (case lastModifiedDate f of None \<Rightarrow> fileDate st | Some d \<Rightarrow> d) \<and>
     \<not> isProcessing st'"
  using assms(1,2,4)
  by (simp add: onDrop_single onDrop_zip_def extractZip_def getJsonFromZip_def
      getImagesFromZip_decoded[OF assms(3,5)] recordFileDate_def split: option.splits)

theorem no_document_found_witness:
  "onDrop example_parse
     (Some [zip_upload (Inr [entry ''readme.txt'' ''hello'', entry ''photo.png'' ''x'']) None])
     ready_state [] =
     (Alerted NoProfileJson, ready_state, [''x''])"
proof -
  let ?z = "[entry ''readme.txt'' ''hello'', entry ''photo.png'' ''x'']"
  let ?f = "zip_upload (Inr ?z) None"
  have 1: "file_type ?f = ''application/zip''" and 2: "file_archive ?f = Inr ?z"
    by (simp_all add: zip_upload_def)
  have 3: "distinct (map name ?z)" by (simp add: entry_def)
  have 4: "filter json_filter ?z = []" by code_simp
  have 5: "\<forall>e \<in> set ?z. image_filter e \<longrightarrow> (\<exists>b. content e = Inr b)"
    by (simp add: entry_def)
  from no_document_found[OF 1 2 3 4 5, of example_parse ready_state "[]"]
  obtain st' store' where
    r: "onDrop example_parse (Some [?f]) ready_state [] = (Alerted NoProfileJson, st', store')"
    and s: "profile st' = profile ready_state" "profileImages st' = profileImages ready_state"
      "names st' = names ready_state" "fileDate st' = fileDate ready_state" "\<not> isProcessing st'"
    by (auto simp: zip_upload_def)
  have "st' = ready_state"
    using s by (cases st') (simp add: ready_state_def)
  moreover have "store' = [''x'']"
    using r by (simp add: onDrop_single zip_upload_def onDrop_zip_def extractZip_def
        getJsonFromZip_def getImagesFromZip_def imageProcessor_def zip_file_def createObjectURL_def
        json_filter_def image_filter_def pop_def includes_js_def entry_def recordFileDate_def
        split: if_splits)
  ultimately show ?thesis using r by simp
qed

text \<open>
  C4, as the claim states it, fails. A document entry that parses to a falsy value
  (\<^verbatim>\<open>null\<close> here) is taken for a missing document; an image that does not decode
  rejects the whole drop; and so does a document on which \<open>getNamesFromJson\<close> throws.
\<close>

theorem one_document_counterexample:
  "example_parse ''null'' = Inr JNull \<and>
   onDrop example_parse (Some [zip_upload (Inr [entry ''profile.json'' ''null'']) None])
     initial_state [] =
     (Alerted NoProfileJson, initial_state, []) \<and>
   onDrop example_parse
     (Some [zip_upload (Inr [entry ''profile.json'' example_text,
                             \<lparr>name = ''photo.png'', dir = False, content = Inl DecodeError\<rparr>]) None])
     initial_state [] =
     (Rejected DecodeError, initial_state\<lparr>isProcessing := True\<rparr>, []) \<and>
   example_parse no_array_text = Inr no_array_document \<and>
   onDrop example_parse (Some [zip_upload (Inr [entry ''profile.json'' no_array_text]) None])
     initial_state [] =
     (Rejected TypeError, initial_state\<lparr>isProcessing := True\<rparr>, [])"
  by (simp add: onDrop_single zip_upload_def onDrop_zip_def extractZip_def recordFileDate_def
      getJsonFromZip_def getImagesFromZip_def imageProcessor_def zip_file_def
      json_filter_def image_filter_def pop_def includes_js_def entry_def example_parse_def
      example_text_def no_array_text_def no_array_document_def
      getNamesFromJson_def collect_def visits_def initial_state_def)

text \<open>
  C4, amended. For an archive (of distinct entry names) with exactly one document entry,
  which decodes and parses to a truthy document on which \<open>getNamesFromJson\<close> returns, and
  whose image entries all decode, the drop succeeds: the committed document is the parse
  of that entry, the index is the one derived from it, and the committed images are as
  many as the image entries, the \<open>i\<close>-th with the name of the \<open>i\<close>-th image entry as its
  \<^verbatim>\<open>id\<close> and a \<^verbatim>\<open>blobUrl\<close> that resolves to the content of that entry.
\<close>

theorem archive_ingestion:
  assumes "file_type f = ''application/zip''" and "file_archive f = Inr z"
    and "distinct (map name z)" and "filter json_filter z = [d]"
    and "content d = Inr t" and "parse t = Inr doc" and "truthy (Some doc)"
    and "getNamesFromJson (Some doc) = Inr idx"
    and "\<forall>e \<in> set z. image_filter e \<longrightarrow> (\<exists>b. content e = Inr b)"
  shows "\<exists>st' store' imgs.
     onDrop parse (Some [f]) st store = (Scrolled, st', store') \<and>
     profile st' = doc \<and> names st' = idx \<and> \<not> isProcessing st' \<and>
     profileImages st' = JArr imgs \<and>
     length imgs = length (filter image_filter z) \<and>
     (\<forall>i < length imgs. \<exists>url b.
        imgs ! i = JObj [(''blobUrl'', JStr url), (''id'', JStr (name (filter image_filter z ! i)))] \<and>
        resolve_url store' url = Some b \<and>
        content (filter image_filter z ! i) = Inr b)"
proof -
  let ?files = "filter image_filter z"
  let ?imgs = "map (\<lambda>(i, e). JObj [(''blobUrl'', JStr (blob_url i)), (''id'', JStr (name e))])
             (enumerate (length store) ?files)"
  let ?store' = "store @ map (\<lambda>e. projr (content e)) ?files"
  let ?st' = "(recordFileDate f (st\<lparr>isProcessing := True\<rparr>))
                \<lparr>profile := doc, names := idx, profileImages := JArr ?imgs, isProcessing := False\<rparr>"
  have j: "getJsonFromZip parse z = Inr doc"
    using getJsonFromZip_first[OF assms(3,4), of parse] assms(5,6) by simp
  have r: "onDrop parse (Some [f]) st store = (Scrolled, ?st', ?store')"
    using assms(1,2,7,8)
    by (simp add: onDrop_single onDrop_zip_def extractZip_def j getImagesFromZip_decoded[OF assms(3,9)])
  have each: "\<exists>url b.
        ?imgs ! i = JObj [(''blobUrl'', JStr url), (''id'', JStr (name (?files ! i)))] \<and>
        resolve_url ?store' url = Some b \<and> content (?files ! i) = Inr b" if i: "i < length ?imgs" for i
  proof -
    from i have i': "i < length ?files" by simp
    then have "?files ! i \<in> set ?files" by (rule nth_mem)
    then obtain b where b: "content (?files ! i) = Inr b"
      using assms(9) by auto
    have "?imgs ! i = JObj [(''blobUrl'', JStr (blob_url (length store + i))), (''id'', JStr (name (?files ! i)))]"
      using i' by (simp add: nth_enumerate_eq)
    moreover have "resolve_url ?store' (blob_url (length store + i)) = Some b"
      using i' b by (simp add: resolve_url_nth nth_append)
    ultimately show ?thesis using b by blast
  qed
  show ?thesis
    apply (rule exI[of _ ?st'], rule exI[of _ ?store'], rule exI[of _ ?imgs])
    using r each by (simp add: recordFileDate_def split: option.splits)
qed


lemma list2: "length xs = 2 \<Longrightarrow> xs = [xs ! 0, xs ! 1]"
  by (cases xs; cases "tl xs") auto

theorem archive_ingestion_witness:
  "(case onDrop example_parse (Some [zip_upload (Inr example_archive) None]) initial_state [] of
      (out, st', store') \<Rightarrow>
        out = Scrolled \<and> profile st' = example_document \<and> names st' = example_index \<and>
        \<not> isProcessing st' \<and>
        (\<exists>u0 u1.
           profileImages st' =
             JArr [JObj [(''blobUrl'', JStr u0), (''id'', JStr ''images/photo.png'')],
                   JObj [(''blobUrl'', JStr u1), (''id'', JStr ''images/pic.jpg'')]] \<and>
           resolve_url store' u0 = Some ''PNGDATA'' \<and>
           resolve_url store' u1 = Some ''JPGDATA''))"
proof -
  let ?f = "zip_upload (Inr example_archive) None"
  have 1: "file_type ?f = ''application/zip''" and 2: "file_archive ?f = Inr example_archive"
    by (simp_all add: zip_upload_def)
  have 3: "distinct (map name example_archive)"
    by (simp add: example_archive_def entry_def)
  have 4: "filter json_filter example_archive = [entry ''profile.json'' example_text]"
    by code_simp
  have 5: "content (entry ''profile.json'' example_text) = Inr example_text"
    by (simp add: entry_def)
  have 6: "example_parse example_text = Inr example_document"
    by (simp add: example_parse_def)
  have 7: "truthy (Some example_document)"
    by (simp add: example_document_def)
  have files: "filter image_filter example_archive =
      [entry ''images/photo.png'' ''PNGDATA'', entry ''images/pic.jpg'' ''JPGDATA'']"
    by code_simp
  have 9: "\<forall>e \<in> set example_archive. image_filter e \<longrightarrow> (\<exists>b. content e = Inr b)"
    by (simp add: example_archive_def entry_def)
  from archive_ingestion[where parse = example_parse and st = initial_state and store = "[]",
         OF 1 2 3 4 5 6 7 example_document_index 9]
  obtain st' store' imgs where
    r: "onDrop example_parse (Some [?f]) initial_state [] = (Scrolled, st', store')"
    and p: "profile st' = example_document" "names st' = example_index" "\<not> isProcessing st'"
    and i: "profileImages st' = JArr imgs" "length imgs = 2"
    and each: "\<And>i. i < 2 \<Longrightarrow> \<exists>url b.
        imgs ! i = JObj [(''blobUrl'', JStr url),
                         (''id'', JStr (name ([entry ''images/photo.png'' ''PNGDATA'', entry ''images/pic.jpg'' ''JPGDATA''] ! i)))] \<and>
        resolve_url store' url = Some b \<and>
        content ([entry ''images/photo.png'' ''PNGDATA'', entry ''images/pic.jpg'' ''JPGDATA''] ! i) = Inr b"
    unfolding files by auto
  from each[of 0] obtain u0 where
    u0: "imgs ! 0 = JObj [(''blobUrl'', JStr u0), (''id'', JStr ''images/photo.png'')]"
        "resolve_url store' u0 = Some ''PNGDATA''"
    by (auto simp: entry_def)
  from each[of 1] obtain u1 where
    u1: "imgs ! 1 = JObj [(''blobUrl'', JStr u1), (''id'', JStr ''images/pic.jpg'')]"
        "resolve_url store' u1 = Some ''JPGDATA''"
    by (auto simp: entry_def)
  have "imgs = [imgs ! 0, imgs ! 1]" using i(2) by (rule list2)
  then have "profileImages st' =
             JArr [JObj [(''blobUrl'', JStr u0), (''id'', JStr ''images/photo.png'')],
                   JObj [(''blobUrl'', JStr u1), (''id'', JStr ''images/pic.jpg'')]]"
    using i(1) u0(1) u1(1) by simp
  with u0(2) u1(2) p show ?thesis unfolding r by auto
qed

subsection \<open>The session cache\<close>

lemma cache_key_inj: "cache_key prefix a = cache_key prefix b \<longleftrightarrow> a = b"
  by (simp add: cache_key_def)

lemma getItem_setItem:
  "setItem s k v = Inr s' \<Longrightarrow> getItem s' k' = Inr (if k' = k then Some v else map_of (items s) k')"
  by (auto simp: setItem_def getItem_def update_conv' split: if_splits)

lemma getItem_setCacheValue_other:
  "k' \<noteq> cache_key prefix k \<Longrightarrow> getItem (setCacheValue prefix k v s) k' = getItem s k'"
  by (auto simp: setCacheValue_def setItem_def getItem_def update_conv' split: sum.splits if_splits)

lemma loadFromCache_blocked: "blocked s \<Longrightarrow> loadFromCache parse prefix s = nothing_cached"
  by (simp add: loadFromCache_def getItem_def)

lemma loadFromCache_document:
  assumes "getItem s (cache_key prefix ''file_date'') = Inr d"
    and "getItem s (cache_key prefix ''profile'') = Inr p"
    and "parse (item_text p) = Inr pj"
  shows "cachedFileDate (loadFromCache parse prefix s) = Some (item_value d) \<and>
         cachedProfile (loadFromCache parse prefix s) = Some pj"
  using assms
  by (simp add: loadFromCache_def nothing_cached_def Let_def split: sum.splits)

lemma example_text_length: "length example_text = 275"
  by code_simp

text \<open>
  C9, as the claim states it, fails. \<open>setCacheValue\<close> catches what \<^verbatim>\<open>setItem\<close> throws, so
  a write the storage refuses is dropped without a sign: with room for the date and not
  for the document, saving a document that \<^verbatim>\<open>JSON.stringify\<close> and \<^verbatim>\<open>JSON.parse\<close> give
  back and then loading yields the date and, for the document, \<^verbatim>\<open>null\<close>.
\<close>

theorem refused_write_counterexample:
  "example_parse (example_stringify (profile document_state)) = Inr (profile document_state) \<and>
   profile document_state = example_document \<and>
   saveToCache example_stringify ''cs'' True document_state small_storage =
     small_storage\<lparr>items := [(''cs_file_date'', ''Mon Jan 01 2024 10:00:00 GMT+0000''),
                              (''cs_profile_images'', ''[]'')]\<rparr> \<and>
   cachedProfile (loadFromCache example_parse ''cs''
      (saveToCache example_stringify ''cs'' True document_state small_storage)) = Some JNull \<and>
   cachedProfile (loadFromCache example_parse ''cs''
      (saveToCache example_stringify ''cs'' True document_state small_storage)) \<noteq>
     Some (profile document_state) \<and>
   cachedFileDate (loadFromCache example_parse ''cs''
      (saveToCache example_stringify ''cs'' True document_state small_storage)) =
     Some (JStr ''Mon Jan 01 2024 10:00:00 GMT+0000'')"
proof -
  let ?date = "''Mon Jan 01 2024 10:00:00 GMT+0000''"
  let ?s2 = "small_storage\<lparr>items := [(''cs_file_date'', ?date), (''cs_profile_images'', ''[]'')]\<rparr>"
  have st: "example_stringify example_document = example_text"
           "example_stringify (JArr []) = ''[]''"
           "fileDate document_state = ?date" "profile document_state = example_document"
           "profileImages document_state = JArr []"
    by (simp_all add: document_state_def example_stringify_def example_document_def no_array_document_def)
  have saved: "saveToCache example_stringify ''cs'' True document_state small_storage = ?s2"
    by (simp add: saveToCache_def setCacheValue_def setItem_def cache_key_def small_storage_def
        used_def st example_text_length)
  have load: "loadFromCache example_parse ''cs'' ?s2 =
      \<lparr>cachedFileDate = Some (JStr ?date), cachedNames = None, cachedProfile = Some JNull,
       cachedProfileImages = Some (JArr [])\<rparr>"
    by (simp add: loadFromCache_def getItem_def cache_key_def small_storage_def item_text_def
        item_value_def nothing_cached_def example_parse_def example_text_def no_array_text_def)
  have 4: "example_parse (example_stringify (profile document_state)) = Inr (profile document_state)"
    by (simp add: st example_parse_def)
  have ne: "Some JNull \<noteq> Some example_document" by (simp add: example_document_def)
  show ?thesis
    using 4 ne by (simp add: saved load st)
qed

text \<open>
  C9, amended. When the storage takes the two writes (of the date and of the document),
  and the document is one that \<^verbatim>\<open>JSON.stringify\<close> and \<^verbatim>\<open>JSON.parse\<close> give back, loading
  after saving yields that document and that date. And a load from a storage that
  refuses access returns with every field undefined.
\<close>

theorem cache_round_trip:
  "(setItem s (cache_key prefix ''file_date'') (fileDate st) = Inr sa \<and>
    setItem (setCacheValue prefix ''profile_images'' (stringify (profileImages st)) sa)
      (cache_key prefix ''profile'') (stringify (profile st)) = Inr sb \<and>
    parse (stringify (profile st)) = Inr (profile st) \<longrightarrow>
      cachedProfile (loadFromCache parse prefix (saveToCache stringify prefix True st s)) =
        Some (profile st) \<and>
      cachedFileDate (loadFromCache parse prefix (saveToCache stringify prefix True st s)) =
        Some (JStr (fileDate st))) \<and>
   (blocked s' \<longrightarrow> loadFromCache parse prefix s' = nothing_cached)"
proof (intro conjI impI)
  assume h: "setItem s (cache_key prefix ''file_date'') (fileDate st) = Inr sa \<and>
    setItem (setCacheValue prefix ''profile_images'' (stringify (profileImages st)) sa)
      (cache_key prefix ''profile'') (stringify (profile st)) = Inr sb \<and>
    parse (stringify (profile st)) = Inr (profile st)"
  let ?s2 = "setCacheValue prefix ''profile_images'' (stringify (profileImages st)) sa"
  from h have saved: "saveToCache stringify prefix True st s = sb"
    by (simp add: saveToCache_def setCacheValue_def)
  have "getItem ?s2 (cache_key prefix ''file_date'') = getItem sa (cache_key prefix ''file_date'')"
    by (rule getItem_setCacheValue_other) (simp add: cache_key_inj)
  also have "\<dots> = Inr (Some (fileDate st))"
    using h getItem_setItem[of s "cache_key prefix ''file_date''" "fileDate st" sa] by simp
  finally have fd2: "getItem ?s2 (cache_key prefix ''file_date'') = Inr (Some (fileDate st))" .
  then have m2: "map_of (items ?s2) (cache_key prefix ''file_date'') = Some (fileDate st)"
    by (simp add: getItem_def split: if_splits)
  have fd: "getItem sb (cache_key prefix ''file_date'') = Inr (Some (fileDate st))"
    using h getItem_setItem[of ?s2 "cache_key prefix ''profile''" "stringify (profile st)" sb
        "cache_key prefix ''file_date''"]
    by (simp add: cache_key_inj m2)
  have pr: "getItem sb (cache_key prefix ''profile'') = Inr (Some (stringify (profile st)))"
    using h getItem_setItem[of ?s2 "cache_key prefix ''profile''" "stringify (profile st)" sb
        "cache_key prefix ''profile''"]
    by simp
  have pa: "parse (item_text (Some (stringify (profile st)))) = Inr (profile st)"
    using h by (simp add: item_text_def)
  from loadFromCache_document[where parse = parse, OF fd pr pa]
  show "cachedProfile (loadFromCache parse prefix (saveToCache stringify prefix True st s)) =
        Some (profile st)"
    and "cachedFileDate (loadFromCache parse prefix (saveToCache stringify prefix True st s)) =
        Some (JStr (fileDate st))"
    by (simp_all add: saved item_value_def)
next
  assume "blocked s'"
  then show "loadFromCache parse prefix s' = nothing_cached" by (rule loadFromCache_blocked)
qed


theorem cache_round_trip_witness:
  "cachedProfile (loadFromCache example_parse ''cs''
      (saveToCache example_stringify ''cs'' True document_state empty_storage)) =
     Some example_document \<and>
   cachedFileDate (loadFromCache example_parse ''cs''
      (saveToCache example_stringify ''cs'' True document_state empty_storage)) =
     Some (JStr ''Mon Jan 01 2024 10:00:00 GMT+0000'') \<and>
   loadFromCache example_parse ''cs'' (no_array_storage\<lparr>blocked := True\<rparr>) = nothing_cached"
proof -
  let ?date = "''Mon Jan 01 2024 10:00:00 GMT+0000''"
  let ?s1 = "empty_storage\<lparr>items := [(''cs_file_date'', ?date)]\<rparr>"
  let ?s2 = "empty_storage\<lparr>items := [(''cs_file_date'', ?date), (''cs_profile_images'', ''[]'')]\<rparr>"
  let ?s3 = "empty_storage\<lparr>items := [(''cs_file_date'', ?date), (''cs_profile_images'', ''[]''),
                (''cs_profile'', example_text)]\<rparr>"
  have st: "example_stringify example_document = example_text"
           "example_stringify (JArr []) = ''[]''"
           "fileDate document_state = ?date" "profile document_state = example_document"
           "profileImages document_state = JArr []"
    by (simp_all add: document_state_def example_stringify_def example_document_def no_array_document_def)
  have 1: "setItem empty_storage (cache_key ''cs'' ''file_date'') (fileDate document_state) = Inr ?s1"
    by (simp add: setItem_def cache_key_def empty_storage_def used_def st)
  have 2: "setCacheValue ''cs'' ''profile_images'' (example_stringify (profileImages document_state)) ?s1 = ?s2"
    by (simp add: setCacheValue_def setItem_def cache_key_def empty_storage_def used_def st)
  have 3: "setItem ?s2 (cache_key ''cs'' ''profile'') (example_stringify (profile document_state)) = Inr ?s3"
    by (simp add: setItem_def cache_key_def empty_storage_def used_def st example_text_length)
  have 4: "example_parse (example_stringify (profile document_state)) = Inr (profile document_state)"
    by (simp add: st example_parse_def)
  have 5: "blocked (no_array_storage\<lparr>blocked := True\<rparr>)" by simp
  from cache_round_trip[where s = empty_storage and prefix = "''cs''" and st = document_state
        and stringify = example_stringify and parse = example_parse and sa = ?s1 and sb = ?s3
        and s' = "no_array_storage\<lparr>blocked := True\<rparr>"]
  show ?thesis
    unfolding 2 using 1 3 4 5 by (simp add: st)
qed


lemma getNamesFromJson_falsy:
  "\<not> truthy (Some v) \<Longrightarrow> getNamesFromJson (Some v) = Inr Map.empty"
  by (cases "Some v" rule: truthy.cases) (simp_all add: getNamesFromJson_def collect_def)

lemma onDrop_commit_index:
  assumes "onDrop parse acceptedFiles st store = (Scrolled, st', store')"
  shows "getNamesFromJson (Some (profile st')) = Inr (names st')"
  using assms
  by (auto simp: onDrop_def includes_js_def Let_def onDrop_zip_def onDrop_json_def
      split: option.splits if_splits sum.splits prod.splits)

lemma loadFromCache_names_derived:
  assumes "cachedNames (loadFromCache parse prefix s) = Some m"
  shows "\<exists>d. cachedProfile (loadFromCache parse prefix s) = Some d \<and> truthy (Some d) \<and>
             getNamesFromJson (Some d) = Inr m"
  using assms
  by (auto simp: loadFromCache_def nothing_cached_def Let_def split: sum.splits if_splits)

lemma App_init_index:
  "names (App_init parse prefix a s) = Map.empty \<or>
   getNamesFromJson (Some (profile (App_init parse prefix a s))) = Inr (names (App_init parse prefix a s))"
proof (cases "a \<and> cachedNames (loadFromCache parse prefix s) \<noteq> None")
  case True
  then obtain m where m: "cachedNames (loadFromCache parse prefix s) = Some m" by auto
  from loadFromCache_names_derived[OF m] obtain d where
    "cachedProfile (loadFromCache parse prefix s) = Some d" "truthy (Some d)"
    "getNamesFromJson (Some d) = Inr m" by blast
  with True m show ?thesis by (simp add: App_init_def or_default_def Let_def)
next
  case False
  then show ?thesis by (auto simp: App_init_def nothing_cached_def Let_def)
qed

lemma App_init_restored:
  assumes "getItem s (cache_key prefix ''profile'') = Inr p" and "parse (item_text p) = Inr pj"
    and "getItem s (cache_key prefix ''profile_images'') = Inr i" and "parse (item_text i) = Inr ij"
    and "getNamesFromJson (Some pj) = Inr n"
  shows "getNamesFromJson (Some (profile (App_init parse prefix True s))) =
           Inr (names (App_init parse prefix True s))"
proof -
  from assms(1) have nb: "\<not> blocked s" by (auto simp: getItem_def split: if_splits)
  then obtain d where d: "getItem s (cache_key prefix ''file_date'') = Inr d"
    by (simp add: getItem_def)
  show ?thesis
  proof (cases "truthy (Some pj)")
    case True
    then have "cachedProfile (loadFromCache parse prefix s) = Some pj"
      and "cachedNames (loadFromCache parse prefix s) = Some n"
      using assms d by (simp_all add: loadFromCache_def nothing_cached_def)
    with True assms(5) show ?thesis by (simp add: App_init_def or_default_def Let_def)
  next
    case False
    then have "cachedProfile (loadFromCache parse prefix s) = Some pj"
      and "cachedNames (loadFromCache parse prefix s) = None"
      using assms d by (simp_all add: loadFromCache_def nothing_cached_def)
    with False show ?thesis
      by (simp add: App_init_def or_default_def Let_def getNamesFromJson_def collect_def)
  qed
qed

lemma loadFromCache_three_keys:
  assumes "blocked s = blocked s'"
    and "\<forall>k \<in> {''file_date'', ''profile'', ''profile_images''}.
           map_of (items s) (cache_key prefix k) = map_of (items s') (cache_key prefix k)"
  shows "loadFromCache parse prefix s = loadFromCache parse prefix s'"
proof -
  have k: "getItem s (cache_key prefix k) = getItem s' (cache_key prefix k)"
    if "k \<in> {''file_date'', ''profile'', ''profile_images''}" for k
    using assms that by (auto simp add: getItem_def)
  have "getItem s (cache_key prefix ''file_date'') = getItem s' (cache_key prefix ''file_date'')"
    and "getItem s (cache_key prefix ''profile'') = getItem s' (cache_key prefix ''profile'')"
    and "getItem s (cache_key prefix ''profile_images'') = getItem s' (cache_key prefix ''profile_images'')"
    by (simp_all add: k)
  then show ?thesis by (simp only: loadFromCache_def)
qed

text \<open>
  C7, as the claim states it, fails after a restoration. \<open>loadFromCache\<close> assigns the
  cached document before it parses the cached images and derives the index, all in one
  \<^verbatim>\<open>try\<close>: when the derivation throws (a host collection that is the number 1), or when
  the cached images are no JSON text, the document is restored and the index is not, and
  \<^verbatim>\<open>App\<close> starts with that document and an empty index.
\<close>

theorem restored_index_counterexample:
  "profile (App_init example_parse ''cs'' True no_array_storage) = no_array_document \<and>
   truthy (Some no_array_document) \<and>
   names (App_init example_parse ''cs'' True no_array_storage) = Map.empty \<and>
   getNamesFromJson (Some no_array_document) = Inl TypeError \<and>
   profile (App_init example_parse ''cs'' True bad_images_storage) = example_document \<and>
   names (App_init example_parse ''cs'' True bad_images_storage) = Map.empty \<and>
   getNamesFromJson (Some example_document) = Inr example_index \<and>
   example_index \<noteq> Map.empty"
proof -
  have 1: "loadFromCache example_parse ''cs'' no_array_storage =
      \<lparr>cachedFileDate = Some (JStr ''Mon Jan 01 2024 10:00:00 GMT+0000''), cachedNames = None,
       cachedProfile = Some no_array_document, cachedProfileImages = Some (JArr [])\<rparr>"
    by (simp add: loadFromCache_def getItem_def cache_key_def no_array_storage_def item_text_def
        item_value_def nothing_cached_def example_parse_def example_text_def no_array_text_def
        no_array_document_def getNamesFromJson_def collect_def visits_def)
  have 2: "loadFromCache example_parse ''cs'' bad_images_storage =
      \<lparr>cachedFileDate = Some (JStr ''Mon Jan 01 2024 10:00:00 GMT+0000''), cachedNames = None,
       cachedProfile = Some example_document, cachedProfileImages = None\<rparr>"
    by (simp add: loadFromCache_def getItem_def cache_key_def bad_images_storage_def item_text_def
        item_value_def nothing_cached_def example_parse_def example_text_def no_array_text_def)
  have 3: "getNamesFromJson (Some no_array_document) = Inl TypeError"
    by (simp add: no_array_document_def getNamesFromJson_def collect_def visits_def)
  have 4: "example_index \<noteq> Map.empty"
  proof
    assume "example_index = Map.empty"
    from fun_cong[OF this, of "KNum 7"] show False by (simp add: example_index_def)
  qed
  have 5: "truthy (Some no_array_document)" "truthy (Some example_document)"
    by (simp_all add: no_array_document_def example_document_def)
  show ?thesis
    using 3 4 5 example_document_index
    by (simp add: App_init_def 1 2 or_default_def Let_def)
qed

text \<open>
  C7, amended. After a successful drop the index is \<open>getNamesFromJson\<close> of the committed
  document. After a restoration the index is either empty or \<open>getNamesFromJson\<close> of the
  restored document, and it is the latter whenever the cached document and the cached
  images both parse and \<open>getNamesFromJson\<close> returns on the cached document. The load
  reads the three keys of the date, the document and the images and no other: a cached
  index would not be looked at.
\<close>

theorem index_derived_from_document:
  "(onDrop parse acceptedFiles st store = (Scrolled, st', store') \<longrightarrow>
      getNamesFromJson (Some (profile st')) = Inr (names st')) \<and>
   (names (App_init parse prefix a s) = Map.empty \<or>
    getNamesFromJson (Some (profile (App_init parse prefix a s))) =
      Inr (names (App_init parse prefix a s))) \<and>
   (getItem s (cache_key prefix ''profile'') = Inr p \<and> parse (item_text p) = Inr pj \<and>
    getItem s (cache_key prefix ''profile_images'') = Inr i \<and> parse (item_text i) = Inr ij \<and>
    getNamesFromJson (Some pj) = Inr n \<longrightarrow>
      getNamesFromJson (Some (profile (App_init parse prefix True s))) =
        Inr (names (App_init parse prefix True s))) \<and>
   (blocked s = blocked s' \<and>
    (\<forall>k \<in> {''file_date'', ''profile'', ''profile_images''}.
       map_of (items s) (cache_key prefix k) = map_of (items s') (cache_key prefix k)) \<longrightarrow>
      loadFromCache parse prefix s = loadFromCache parse prefix s')"
  using onDrop_commit_index[of parse acceptedFiles st store st' store']
    App_init_index[of parse prefix a s]
    App_init_restored[of s prefix p parse pj i ij n]
    loadFromCache_three_keys[of s s' prefix parse]
  by blast


theorem index_derived_from_document_witness:
  "onDrop example_parse
     (Some [json_upload example_text (Some ''Mon Jan 01 2024 10:00:00 GMT+0000'')])
     initial_state [] = (Scrolled, document_state, []) \<and>
   getNamesFromJson (Some (profile document_state)) = Inr (names document_state) \<and>
   profile (App_init example_parse ''cs'' True good_storage) = example_document \<and>
   getNamesFromJson (Some (profile (App_init example_parse ''cs'' True good_storage))) =
     Inr (names (App_init example_parse ''cs'' True good_storage)) \<and>
   loadFromCache example_parse ''cs''
     (good_storage\<lparr>items := (''cs_names'', ''stale'') # items good_storage\<rparr>) =
     loadFromCache example_parse ''cs'' good_storage"
proof -
  let ?f = "json_upload example_text (Some ''Mon Jan 01 2024 10:00:00 GMT+0000'')"
  let ?s' = "good_storage\<lparr>items := (''cs_names'', ''stale'') # items good_storage\<rparr>"
  note t = index_derived_from_document[where parse = example_parse and acceptedFiles = "Some [?f]"
      and st = initial_state and store = "[]" and st' = document_state and store' = "[]"
      and prefix = "''cs''" and a = True and s = good_storage and s' = ?s'
      and p = "Some example_text" and pj = example_document and i = "Some ''[]''" and ij = "JArr []"
      and n = example_index]
  have r: "onDrop example_parse (Some [?f]) initial_state [] = (Scrolled, document_state, [])"
    by (simp add: onDrop_single json_upload_def onDrop_json_def readBlobFile_def recordFileDate_def
        example_parse_def example_document_index initial_state_def document_state_def)
  have g: "getItem good_storage (cache_key ''cs'' ''profile'') = Inr (Some example_text)"
    "getItem good_storage (cache_key ''cs'' ''profile_images'') = Inr (Some ''[]'')"
    by (simp_all add: getItem_def good_storage_def cache_key_def)
  have p: "example_parse (item_text (Some example_text)) = Inr example_document"
    "example_parse (item_text (Some ''[]'')) = Inr (JArr [])"
    by (simp_all add: item_text_def example_parse_def example_text_def no_array_text_def)
  have k: "blocked good_storage = blocked ?s' \<and>
    (\<forall>k \<in> {''file_date'', ''profile'', ''profile_images''}.
       map_of (items good_storage) (cache_key ''cs'' k) = map_of (items ?s') (cache_key ''cs'' k))"
    by (simp add: cache_key_def)
  note t1 = t[THEN conjunct1] and t3 = t[THEN conjunct2, THEN conjunct2, THEN conjunct1]
    and t4 = t[THEN conjunct2, THEN conjunct2, THEN conjunct2]
  have 1: "getNamesFromJson (Some (profile document_state)) = Inr (names document_state)"
    using t1 r by (rule mp)
  have "getItem good_storage (cache_key ''cs'' ''profile'') = Inr (Some example_text) \<and>
    example_parse (item_text (Some example_text)) = Inr example_document \<and>
    getItem good_storage (cache_key ''cs'' ''profile_images'') = Inr (Some ''[]'') \<and>
    example_parse (item_text (Some ''[]'')) = Inr (JArr []) \<and>
    getNamesFromJson (Some example_document) = Inr example_index"
    by (intro conjI g p example_document_index)
  with t3 have 2: "getNamesFromJson (Some (profile (App_init example_parse ''cs'' True good_storage))) =
     Inr (names (App_init example_parse ''cs'' True good_storage))"
    by (rule mp)
  from t4 k have "loadFromCache example_parse ''cs'' good_storage = loadFromCache example_parse ''cs'' ?s'"
    by (rule mp)
  then have 3: "loadFromCache example_parse ''cs'' ?s' = loadFromCache example_parse ''cs'' good_storage"
    by (rule sym)
  have d: "getItem good_storage (cache_key ''cs'' ''file_date'') =
      Inr (Some ''Mon Jan 01 2024 10:00:00 GMT+0000'')"
    by (simp add: getItem_def good_storage_def cache_key_def)
  have "cachedProfile (loadFromCache example_parse ''cs'' good_storage) = Some example_document"
    using loadFromCache_document[where parse = example_parse, OF d g(1) p(1)] by simp
  then have 4: "profile (App_init example_parse ''cs'' True good_storage) = example_document"
    by (simp add: App_init_def Let_def or_default_def example_document_def)
  show ?thesis by (intro conjI r 1 2 3 4)
qed

end
